theory Spec2Isabelle
  imports Complex_Main "HOL-Library.Sublist" "HOL-Library.Char_ord" "HOL-Library.List_Lexorder"
begin

section \<open>JavaScript strings and numbers\<close>

text \<open>
  The palette (\<^verbatim>\<open>src/renderer/components/k-menu-palette.ts\<close>) works on JavaScript
  strings, which are sequences of UTF-16 code units. They are modelled as \<^typ>\<open>string\<close>,
  every \<^typ>\<open>char\<close> standing for one code unit below 256 (the Latin-1 range), so that
  \<open>length\<close>, indexing and comparison mean what they mean in the source.
\<close>

definition isSpace :: "char \<Rightarrow> bool" where
  \<comment> \<open>the class \<^verbatim>\<open>\s\<close> of a regular expression (also what \<^verbatim>\<open>trim\<close> strips), below 256\<close>
  "isSpace c = (of_char c \<in> {9, 10, 11, 12, 13, 32, 160 :: nat})"

definition isLineTerminator :: "char \<Rightarrow> bool" where
  \<comment> \<open>the code units that \<^verbatim>\<open>.\<close> does not match\<close>
  "isLineTerminator c = (of_char c \<in> {10, 13 :: nat})"

definition isWordChar :: "char \<Rightarrow> bool" where
  \<comment> \<open>the class \<^verbatim>\<open>\w\<close>: letters, digits and the underscore\<close>
  "isWordChar c =
     (let n = of_char c :: nat
      in (65 \<le> n \<and> n \<le> 90) \<or> (97 \<le> n \<and> n \<le> 122) \<or> (48 \<le> n \<and> n \<le> 57) \<or> n = 95)"

definition toLowerCaseChar :: "char \<Rightarrow> char" where
  "toLowerCaseChar c =
     (let n = of_char c :: nat
      in if (65 \<le> n \<and> n \<le> 90) \<or> (192 \<le> n \<and> n \<le> 222 \<and> n \<noteq> 215)
         then char_of (n + 32) else c)"

definition toLowerCase :: "string \<Rightarrow> string" where
  "toLowerCase s = map toLowerCaseChar s"

definition startsWith :: "string \<Rightarrow> string \<Rightarrow> bool" where
  \<comment> \<open>\<^verbatim>\<open>s.startsWith(t)\<close>\<close>
  "startsWith s t = prefix t s"

fun js_includes :: "string \<Rightarrow> string \<Rightarrow> bool" where
  \<comment> \<open>\<^verbatim>\<open>s.includes(t)\<close>: \<open>t\<close> occurs in \<open>s\<close> as a contiguous run\<close>
  "js_includes [] t = (t = [])"
| "js_includes (c # cs) t = (prefix t (c # cs) \<or> js_includes cs t)"

definition trim :: "string \<Rightarrow> string" where
  "trim s = rev (dropWhile isSpace (rev (dropWhile isSpace s)))"

function split_ws_from :: "string \<Rightarrow> string \<Rightarrow> string list" where
  \<comment> \<open>\<^verbatim>\<open>s.split(/\s+/)\<close>, the piece being read kept reversed in the first argument\<close>
  "split_ws_from acc [] = [rev acc]"
| "split_ws_from acc (c # cs) =
     (if isSpace c then rev acc # split_ws_from [] (dropWhile isSpace cs)
      else split_ws_from (c # acc) cs)"
  by pat_completeness auto
termination
  by (relation "measure (\<lambda>(acc, s). length s)")
     (auto simp: less_Suc_eq_le length_dropWhile_le)

definition split_ws :: "string \<Rightarrow> string list" where
  "split_ws s = split_ws_from [] s"

text \<open>
  A JavaScript number is a double. The scores of the palette are sums of the constants
  10, 8, 6, 5 and of quotients \<open>n / n\<close>, all of them small integers that a double holds
  exactly, so a finite number is modelled as a rational; the one other value that the
  code can produce, the \<^verbatim>\<open>NaN\<close> of \<open>0 / 0\<close>, is a constructor of its own.
\<close>

datatype number = Num rat | NaN

definition js_div :: "nat \<Rightarrow> nat \<Rightarrow> number" where
  \<comment> \<open>\<^verbatim>\<open>a / b\<close> on non-negative integers where \<open>b\<close> is zero only if \<open>a\<close> is\<close>
  "js_div a b = (if b = 0 then NaN else Num (of_nat a / of_nat b))"

definition js_gt0 :: "number \<Rightarrow> bool" where
  \<comment> \<open>\<^verbatim>\<open>x > 0\<close>, false for \<^verbatim>\<open>NaN\<close>\<close>
  "js_gt0 x = (case x of Num r \<Rightarrow> r > 0 | NaN \<Rightarrow> False)"

definition at_index :: "'a list \<Rightarrow> int \<Rightarrow> 'a option" where
  \<comment> \<open>\<^verbatim>\<open>xs[i]\<close>: \<^verbatim>\<open>undefined\<close> (here \<open>None\<close>) outside the array, also at \<open>-1\<close>\<close>
  "at_index xs i = (if 0 \<le> i \<and> i < int (length xs) then Some (xs ! nat i) else None)"

section \<open>Fuzzy matching\<close>

text \<open>
  \<^verbatim>\<open>fuzzyMatch(text, query)\<close>: one pass over \<open>text\<close>, the index \<open>i\<close> moving at every
  step and \<open>queryIndex\<close> at every character found. The loop is the function
  \<open>fuzzyMatch_loop\<close>, returning \<open>(score, queryIndex)\<close> as they are when it ends.
\<close>

function fuzzyMatch_loop :: "string \<Rightarrow> string \<Rightarrow> nat \<Rightarrow> nat \<Rightarrow> nat \<Rightarrow> nat \<times> nat" where
  "fuzzyMatch_loop text query i score queryIndex =
     (if i < length text \<and> queryIndex < length query
      then (if text ! i = query ! queryIndex
            then fuzzyMatch_loop text query (i + 1) (score + 1) (queryIndex + 1)
            else fuzzyMatch_loop text query (i + 1) score queryIndex)
      else (score, queryIndex))"
  by pat_completeness auto
termination
  by (relation "measure (\<lambda>(text, query, i, score, queryIndex). length text - i)") auto

declare fuzzyMatch_loop.simps [simp del]

definition fuzzyMatch :: "string \<Rightarrow> string \<Rightarrow> number" where
  "fuzzyMatch text query =
     (case fuzzyMatch_loop text query 0 0 0 of
        (score, queryIndex) \<Rightarrow>
          if queryIndex = length query then js_div score (length query) else Num 0)"

section \<open>Data model\<close>

record KubeResource =
  kind :: string
  name :: string
  namespace :: "string option"
  uid :: string
  apiVersion :: string

record SearchResult =
  resource :: KubeResource
  displayText :: string
  matchScore :: rat

datatype FilterType = Kind | Namespace | Node

record Filter =
  filter_type :: FilterType
  filter_value :: string

text \<open>
  The \<^verbatim>\<open>execute\<close> closure of a command is named by a constructor; the commands of
  \<^verbatim>\<open>initializeCommands\<close> and \<^verbatim>\<open>buildNavigationCommands\<close> carry \<open>ViewLogs\<close>,
  \<open>Describe\<close>, \<open>Delete\<close>, \<open>Refresh\<close> and \<open>SwitchCluster id name\<close>. The optional fields
  \<^verbatim>\<open>requiresResource\<close> and \<^verbatim>\<open>resourceTypes\<close> are options.
\<close>

datatype command_action = SwitchCluster string string | ViewLogs | Describe | Delete | Refresh

record Command =
  cmd_id :: string
  label :: string
  description :: string
  requiresResource :: "bool option"
  resourceTypes :: "string list option"
  execute :: command_action

text \<open>
  What the palette does to the world outside its fields is written to a log, oldest
  first: the dialogs (\<^verbatim>\<open>alert\<close>, \<^verbatim>\<open>confirm\<close>), the requests and messages posted to the
  cluster frame, and every call of a command's \<^verbatim>\<open>execute\<close>.
\<close>

datatype alert_message =
    SelectResourceFirst
  | OnlyWorksWith "string list"
  | DeleteSucceeded string
  | DeleteFailed string string

datatype request = GetResources | DeleteResource KubeResource | OpenLogs KubeResource

datatype effect =
    Alert alert_message
  | ConfirmPrompt string
  | Requested nat request
  | NavigatePosted nat string KubeResource
  | Execute command_action "KubeResource option"

text \<open>The content of the results list element, as the render functions leave it.\<close>

datatype empty_text =
    LoadingResources
  | NoResourcesFound
  | NoCommandsFound
  | NoneFoundMatching "string list option" string

datatype view =
    EmptyView empty_text
  | ResultsView "SearchResult list" int
  | CommandsView "Command list" int
  | CommandResourcesView Command "KubeResource list" int

datatype 'a settled = Resolved 'a | Rejected string

record KMenuPalette =
  isOpen :: bool
  input_value :: string
  selectedIndex :: int
  results :: "SearchResult list"
  allResources :: "KubeResource list"
  activeFilters :: "Filter list"
  autocompleteSuggestions :: "string list"
  autocompleteSelectedIndex :: int
  autocompleteFilterType :: "FilterType option"
  isCommandMode :: bool
  availableCommands :: "Command list"
  selectedCommandIndex :: int
  activeCommand :: "Command option"
  commandSearchQuery :: string
  resourceCache :: "string \<rightharpoonup> KubeResource list"
  currentClusterId :: "string option"
  searchDebounceTimer :: bool
  activeIframeSource :: "nat option"
  loadingIndicator :: bool
  resultsListShown :: bool
  resultsList :: view
  effects :: "effect list"

definition truthy :: "string option \<Rightarrow> bool" where
  \<comment> \<open>a string that may be \<^verbatim>\<open>null\<close> or \<^verbatim>\<open>undefined\<close>, read as a condition\<close>
  "truthy s = (case s of None \<Rightarrow> False | Some v \<Rightarrow> v \<noteq> [])"

definition emit :: "effect \<Rightarrow> KMenuPalette \<Rightarrow> KMenuPalette" where
  "emit e st = st\<lparr>effects := effects st @ [e]\<rparr>"

section \<open>Searching and filtering\<close>

definition getDisplayText :: "KubeResource \<Rightarrow> string" where
  "getDisplayText r =
     (if truthy (namespace r) then kind r @ ''/'' @ the (namespace r) @ ''/'' @ name r
      else kind r @ ''/'' @ name r)"

definition applyFilter :: "Filter \<Rightarrow> KubeResource list \<Rightarrow> KubeResource list" where
  \<comment> \<open>the body of \<^verbatim>\<open>activeFilters.forEach\<close>, the same text in \<^verbatim>\<open>performSearch\<close> and
      \<^verbatim>\<open>renderCommandResourceList\<close>\<close>
  "applyFilter f filteredResources =
     (case filter_type f of
        Kind \<Rightarrow> filter (\<lambda>r. toLowerCase (kind r) = toLowerCase (filter_value f)) filteredResources
      | Namespace \<Rightarrow>
          filter (\<lambda>r. case namespace r of None \<Rightarrow> False
                       | Some ns \<Rightarrow> toLowerCase ns = toLowerCase (filter_value f)) filteredResources
      | Node \<Rightarrow>
          filter (\<lambda>r. kind r = ''Node'' \<and> toLowerCase (name r) = toLowerCase (filter_value f))
            filteredResources)"

definition applyActiveFilters :: "Filter list \<Rightarrow> KubeResource list \<Rightarrow> KubeResource list" where
  "applyActiveFilters fs rs = foldl (\<lambda>filteredResources f. applyFilter f filteredResources) rs fs"

fun scoreTerms :: "string \<Rightarrow> string \<Rightarrow> string \<Rightarrow> string \<Rightarrow> string list \<Rightarrow> rat \<Rightarrow> rat option" where
  \<comment> \<open>the loop over \<^verbatim>\<open>searchTerms\<close>; \<open>None\<close> is its early return with score 0\<close>
  "scoreTerms displayTextLower nameLower kindLower namespaceLower [] totalScore = Some totalScore"
| "scoreTerms displayTextLower nameLower kindLower namespaceLower (term # terms) totalScore =
     (if js_includes displayTextLower term
      then scoreTerms displayTextLower nameLower kindLower namespaceLower terms (totalScore + 10)
      else if js_includes nameLower term
      then scoreTerms displayTextLower nameLower kindLower namespaceLower terms (totalScore + 8)
      else if js_includes kindLower term
      then scoreTerms displayTextLower nameLower kindLower namespaceLower terms (totalScore + 6)
      else if js_includes namespaceLower term
      then scoreTerms displayTextLower nameLower kindLower namespaceLower terms (totalScore + 5)
      else (case fuzzyMatch displayTextLower term of
              Num fuzzyScore \<Rightarrow>
                if fuzzyScore > 0
                then scoreTerms displayTextLower nameLower kindLower namespaceLower terms
                       (totalScore + fuzzyScore * 2)
                else None
            | NaN \<Rightarrow> None))"

definition scoreResource :: "string list \<Rightarrow> KubeResource \<Rightarrow> SearchResult" where
  \<comment> \<open>the callback of \<^verbatim>\<open>filteredResources.map\<close> in \<^verbatim>\<open>performSearch\<close>\<close>
  "scoreResource searchTerms r =
     (let displayText = getDisplayText r;
          displayTextLower = toLowerCase displayText;
          nameLower = toLowerCase (name r);
          kindLower = toLowerCase (kind r);
          namespaceLower = (case namespace r of None \<Rightarrow> [] | Some ns \<Rightarrow> toLowerCase ns)
      in \<lparr>resource = r, displayText = displayText,
          matchScore =
            (case scoreTerms displayTextLower nameLower kindLower namespaceLower searchTerms 0 of
               None \<Rightarrow> 0 | Some totalScore \<Rightarrow> totalScore)\<rparr>)"

definition searchTermsOf :: "string \<Rightarrow> string list" where
  \<comment> \<open>\<^verbatim>\<open>query.toLowerCase().split(/\s+/).filter(term => term.length > 0)\<close>\<close>
  "searchTermsOf query = filter (\<lambda>term. length term > 0) (split_ws (toLowerCase query))"

definition renderResults :: "KMenuPalette \<Rightarrow> KMenuPalette" where
  "renderResults st =
     (if results st = []
      then st\<lparr>resultsList :=
                EmptyView (if allResources st = [] then LoadingResources else NoResourcesFound)\<rparr>
      else st\<lparr>resultsList := ResultsView (results st) (selectedIndex st)\<rparr>)"

definition performSearch :: "KMenuPalette \<Rightarrow> KMenuPalette" where
  "performSearch st =
     (if isCommandMode st then st
      else
        let query = input_value st;
            filteredResources = applyActiveFilters (activeFilters st) (allResources st);
            rs =
              (if query = []
               then map (\<lambda>r. \<lparr>resource = r, displayText = getDisplayText r, matchScore = 1\<rparr>)
                      (take 50 filteredResources)
               else
                 take 50
                   (sort_key (\<lambda>result. - matchScore result)
                      (filter (\<lambda>result. matchScore result > 0)
                         (map (scoreResource (searchTermsOf query)) filteredResources))))
        in renderResults (st\<lparr>results := rs, selectedIndex := 0\<rparr>))"

section \<open>Commands and their lists\<close>

definition filteredCommands :: "KMenuPalette \<Rightarrow> Command list" where
  \<comment> \<open>the filter on \<^verbatim>\<open>availableCommands\<close> that \<^verbatim>\<open>renderCommandList\<close>,
      \<^verbatim>\<open>autocompleteCommand\<close> and \<^verbatim>\<open>executeCommand\<close> all start with\<close>
  "filteredCommands st =
     (let query = toLowerCase (drop 1 (input_value st));
          searchTerms = filter (\<lambda>term. length term > 0) (split_ws query)
      in filter (\<lambda>cmd. list_all (\<lambda>term. js_includes (toLowerCase (label cmd)) term
                                     \<or> js_includes (toLowerCase (description cmd)) term)
                          searchTerms)
           (availableCommands st))"

definition renderCommandList :: "KMenuPalette \<Rightarrow> KMenuPalette" where
  "renderCommandList st =
     (if filteredCommands st = [] then st\<lparr>resultsList := EmptyView NoCommandsFound\<rparr>
      else st\<lparr>resultsList := CommandsView (filteredCommands st) (selectedCommandIndex st)\<rparr>)"

definition renderCommandResourceList :: "KMenuPalette \<Rightarrow> KMenuPalette" where
  "renderCommandResourceList st =
     (case activeCommand st of
        None \<Rightarrow> st
      | Some cmd \<Rightarrow>
          let filtered1 = applyActiveFilters (activeFilters st) (allResources st);
              filtered2 =
                (case resourceTypes cmd of
                   None \<Rightarrow> filtered1
                 | Some types \<Rightarrow> filter (\<lambda>r. kind r \<in> set types) filtered1);
              filtered3 =
                (if commandSearchQuery st \<noteq> []
                 then
                   let searchQuery = toLowerCase (commandSearchQuery st)
                   in filter (\<lambda>r. js_includes (toLowerCase (name r)) searchQuery
                                  \<or> (case namespace r of None \<Rightarrow> False
                                      | Some ns \<Rightarrow> js_includes (toLowerCase ns) searchQuery)
                                  \<or> js_includes (toLowerCase (kind r)) searchQuery)
                        filtered2
                 else filtered2);
              filteredResources = take 50 filtered3
          in if filteredResources = []
             then st\<lparr>resultsList :=
                       EmptyView (NoneFoundMatching (resourceTypes cmd) (commandSearchQuery st))\<rparr>
             else st\<lparr>resultsList := CommandResourcesView cmd filteredResources (selectedIndex st),
                     results :=
                       map (\<lambda>r. \<lparr>resource = r, displayText = getDisplayText r, matchScore = 1\<rparr>)
                         filteredResources,
                     selectedIndex := 0\<rparr>)"

section \<open>Parsing the text buffer\<close>

definition commandMatch :: "string \<Rightarrow> (string \<times> string option) option" where
  \<comment> \<open>\<^verbatim>\<open>query.match(/^\/(\w+)(?:\s+(.+))?$/)\<close>: the two groups of a match. After the
      name the buffer ends, or continues with white space and then at least one character,
      none of them a line terminator up to the end; when only white space follows the
      name, the greedy \<^verbatim>\<open>\s+\<close> gives its last character back to \<^verbatim>\<open>.+\<close>.\<close>
  "commandMatch query =
     (case query of
        [] \<Rightarrow> None
      | c # rest \<Rightarrow>
          if c \<noteq> CHR ''/'' then None
          else
            let cmdName = takeWhile isWordChar rest;
                after = dropWhile isWordChar rest;
                spaces = takeWhile isSpace after;
                tail = dropWhile isSpace after
            in if cmdName = [] then None
               else if after = [] then Some (cmdName, None)
               else if spaces = [] then None
               else if tail \<noteq> []
               then (if list_ex isLineTerminator tail then None else Some (cmdName, Some tail))
               else if length spaces \<ge> 2 \<and> \<not> isLineTerminator (last spaces)
               then Some (cmdName, Some [last spaces])
               else None)"

definition commandPrefixMatch :: "string \<Rightarrow> string option" where
  \<comment> \<open>\<^verbatim>\<open>value.match(/^\/(\w+)/)\<close>: the group of a match\<close>
  "commandPrefixMatch query =
     (case query of
        [] \<Rightarrow> None
      | c # rest \<Rightarrow>
          if c = CHR ''/'' \<and> takeWhile isWordChar rest \<noteq> []
          then Some (takeWhile isWordChar rest) else None)"

definition filterMatch :: "string \<Rightarrow> (FilterType \<times> string) option" where
  \<comment> \<open>\<^verbatim>\<open>s.match(/^(kind|namespace|node):(.*)$/i)\<close>, the first group lowered and read as
      a filter type, the second as it is\<close>
  "filterMatch s =
     (let attempt = (\<lambda>word.
            if toLowerCase (take (length word) s) = word
               \<and> \<not> list_ex isLineTerminator (drop (length word) s)
            then Some (drop (length word) s) else None)
      in case attempt ''kind:'' of
           Some v \<Rightarrow> Some (Kind, v)
         | None \<Rightarrow>
             (case attempt ''namespace:'' of
                Some v \<Rightarrow> Some (Namespace, v)
              | None \<Rightarrow>
                  (case attempt ''node:'' of
                     Some v \<Rightarrow> Some (Node, v)
                   | None \<Rightarrow> None)))"

section \<open>Attribute suggestions\<close>

definition array_from_set :: "'a list \<Rightarrow> 'a list" where
  \<comment> \<open>\<^verbatim>\<open>Array.from(new Set(xs))\<close>: each value once, at its first occurrence\<close>
  "array_from_set xs = rev (remdups (rev xs))"

definition kindValues :: "KubeResource list \<Rightarrow> string list" where
  "kindValues rs = array_from_set (map kind rs)"

definition namespaceValues :: "KubeResource list \<Rightarrow> string list" where
  "namespaceValues rs =
     array_from_set (map (\<lambda>r. the (namespace r)) (filter (\<lambda>r. truthy (namespace r)) rs))"

definition nodeValues :: "KubeResource list \<Rightarrow> string list" where
  "nodeValues rs = array_from_set (map name (filter (\<lambda>r. kind r = ''Node'') rs))"

definition plainSuggestions :: "FilterType \<Rightarrow> string \<Rightarrow> KubeResource list \<Rightarrow> string list" where
  \<comment> \<open>the two \<^verbatim>\<open>switch\<close> statements of \<^verbatim>\<open>updateAutocompleteHint\<close> outside command mode\<close>
  "plainSuggestions filterType filterValue rs =
     (let vals = (case filterType of
                    Kind \<Rightarrow> kindValues rs
                  | Namespace \<Rightarrow> namespaceValues rs
                  | Node \<Rightarrow> nodeValues rs)
      in if filterValue = [] then take 10 (sort vals)
         else take 8 (sort (filter (\<lambda>v. js_includes (toLowerCase v) (toLowerCase filterValue))
                              vals)))"

definition commandSuggestions ::
  "Command \<Rightarrow> FilterType \<Rightarrow> string \<Rightarrow> KubeResource list \<Rightarrow> string list" where
  \<comment> \<open>the two \<^verbatim>\<open>switch\<close> statements of \<^verbatim>\<open>updateAutocompleteHint\<close> under a command\<close>
  "commandSuggestions matchingCommand filterType filterValue rs =
     (if filterValue = []
      then (case filterType of
              Kind \<Rightarrow>
                (case resourceTypes matchingCommand of
                   Some types \<Rightarrow> sort types
                 | None \<Rightarrow> take 10 (sort (kindValues rs)))
            | Namespace \<Rightarrow> take 10 (sort (namespaceValues rs))
            | Node \<Rightarrow> take 10 (sort (nodeValues rs)))
      else
        let allValues =
              (case filterType of
                 Kind \<Rightarrow>
                   (case resourceTypes matchingCommand of
                      Some types \<Rightarrow> types
                    | None \<Rightarrow> kindValues rs)
               | Namespace \<Rightarrow> namespaceValues rs
               | Node \<Rightarrow> nodeValues rs)
        in take 10 (sort (filter (\<lambda>v. js_includes (toLowerCase v) (toLowerCase filterValue))
                            allValues)))"

definition setSuggestions :: "string list \<Rightarrow> KMenuPalette \<Rightarrow> KMenuPalette" where
  "setSuggestions suggestions st =
     st\<lparr>autocompleteSuggestions := suggestions,
        autocompleteSelectedIndex :=
          (if autocompleteSelectedIndex st = -1 \<and> suggestions \<noteq> [] then 0
           else autocompleteSelectedIndex st)\<rparr>"

section \<open>The input state machine\<close>

fun findIndex :: "('a \<Rightarrow> bool) \<Rightarrow> 'a list \<Rightarrow> nat option" where
  \<comment> \<open>where \<^verbatim>\<open>xs.find(p)\<close> finds its element\<close>
  "findIndex P [] = None"
| "findIndex P (x # xs) = (if P x then Some 0 else map_option Suc (findIndex P xs))"

definition showCommandList :: "KMenuPalette \<Rightarrow> KMenuPalette" where
  \<comment> \<open>the block under \<^verbatim>\<open>// Just showing command list\<close>\<close>
  "showCommandList st =
     renderCommandList
       (st\<lparr>activeCommand := None, commandSearchQuery := [], autocompleteFilterType := None,
           autocompleteSuggestions := [], autocompleteSelectedIndex := -1\<rparr>)"

definition sortResourceTypes :: "nat \<Rightarrow> KMenuPalette \<Rightarrow> KMenuPalette" where
  \<comment> \<open>\<^verbatim>\<open>matchingCommand.resourceTypes.sort()\<close> sorts the array of the command object in
      place; \<^verbatim>\<open>availableCommands\<close> and \<^verbatim>\<open>activeCommand\<close> both hold that object\<close>
  "sortResourceTypes i st =
     (let cmd = availableCommands st ! i
      in case resourceTypes cmd of
           None \<Rightarrow> st
         | Some types \<Rightarrow>
             st\<lparr>availableCommands := (availableCommands st)[i := cmd\<lparr>resourceTypes := Some (sort types)\<rparr>],
                activeCommand := Some (cmd\<lparr>resourceTypes := Some (sort types)\<rparr>)\<rparr>)"

definition commandHint :: "nat \<Rightarrow> string \<Rightarrow> KMenuPalette \<Rightarrow> KMenuPalette" where
  \<comment> \<open>\<^verbatim>\<open>updateAutocompleteHint\<close> from \<^verbatim>\<open>if (matchingCommand)\<close> on; \<open>i\<close> is the place of the
      matching command in \<^verbatim>\<open>availableCommands\<close>\<close>
  "commandHint i searchQuery st =
     (let matchingCommand = availableCommands st ! i;
          st1 = st\<lparr>activeCommand := Some matchingCommand\<rparr>
      in case filterMatch searchQuery of
           Some (filterType, raw) \<Rightarrow>
             let filterValue = trim raw;
                 st2 = st1\<lparr>autocompleteFilterType := Some filterType\<rparr>;
                 st3 = (if filterValue = [] \<and> filterType = Kind then sortResourceTypes i st2
                        else st2)
             in setSuggestions
                  (commandSuggestions matchingCommand filterType filterValue (allResources st))
                  st3
         | None \<Rightarrow>
             if searchQuery \<noteq> []
             then
               if requiresResource matchingCommand \<noteq> Some True
               then renderCommandList
                      (st1\<lparr>activeCommand := None, commandSearchQuery := [],
                           autocompleteFilterType := None, autocompleteSuggestions := [],
                           autocompleteSelectedIndex := -1\<rparr>)
               else renderCommandResourceList
                      (st1\<lparr>commandSearchQuery := searchQuery, autocompleteFilterType := None,
                           autocompleteSuggestions := [], autocompleteSelectedIndex := -1\<rparr>)
             else showCommandList st1)"

definition plainHint :: "KMenuPalette \<Rightarrow> KMenuPalette" where
  \<comment> \<open>\<^verbatim>\<open>updateAutocompleteHint\<close> from \<^verbatim>\<open>// Check if user is typing a filter\<close> on\<close>
  "plainHint st =
     (case filterMatch (input_value st) of
        Some (filterType, raw) \<Rightarrow>
          setSuggestions (plainSuggestions filterType (trim raw) (allResources st))
            (st\<lparr>autocompleteFilterType := Some filterType\<rparr>)
      | None \<Rightarrow>
          st\<lparr>autocompleteSuggestions := [], autocompleteSelectedIndex := -1,
             autocompleteFilterType := None\<rparr>)"

definition updateAutocompleteHint :: "KMenuPalette \<Rightarrow> KMenuPalette" where
  "updateAutocompleteHint st =
     (let query = input_value st
      in if startsWith query ''/''
         then
           let st1 = st\<lparr>isCommandMode := True\<rparr>
           in case commandMatch query of
                None \<Rightarrow> showCommandList st1
              | Some (cmdName, group2) \<Rightarrow>
                  let commandName = toLowerCase cmdName;
                      searchQuery = (case group2 of None \<Rightarrow> [] | Some q \<Rightarrow> q)
                  in case findIndex (\<lambda>cmd. cmd_id cmd = commandName
                                        \<or> startsWith (toLowerCase (label cmd)) commandName)
                            (availableCommands st1) of
                       None \<Rightarrow> showCommandList st1
                     | Some i \<Rightarrow> commandHint i searchQuery st1
         else plainHint (st\<lparr>isCommandMode := False, activeCommand := None,
                            commandSearchQuery := []\<rparr>))"

text \<open>
  \<^verbatim>\<open>handleInput\<close> updates the hint at once and (re)starts the debounce timer;
  \<open>searchDebounceFired\<close> is the timer's callback, 150 ms later.
\<close>

definition handleInput :: "KMenuPalette \<Rightarrow> KMenuPalette" where
  "handleInput st = (updateAutocompleteHint st)\<lparr>searchDebounceTimer := True\<rparr>"

definition searchDebounceFired :: "KMenuPalette \<Rightarrow> KMenuPalette" where
  "searchDebounceFired st =
     (if searchDebounceTimer st then (performSearch st)\<lparr>searchDebounceTimer := False\<rparr> else st)"

definition addFilter :: "FilterType \<Rightarrow> string \<Rightarrow> KMenuPalette \<Rightarrow> KMenuPalette" where
  "addFilter type v st =
     (if list_ex (\<lambda>f. filter_type f = type \<and> filter_value f = v) (activeFilters st) then st
      else updateAutocompleteHint
             (performSearch
                (st\<lparr>activeFilters := activeFilters st @ [\<lparr>filter_type = type, filter_value = v\<rparr>],
                    input_value := [], autocompleteSuggestions := [],
                    autocompleteSelectedIndex := -1, autocompleteFilterType := None\<rparr>)))"

definition removeFilter :: "FilterType \<Rightarrow> string \<Rightarrow> KMenuPalette \<Rightarrow> KMenuPalette" where
  "removeFilter type v st =
     performSearch
       (st\<lparr>activeFilters :=
             filter (\<lambda>f. \<not> (filter_type f = type \<and> filter_value f = v)) (activeFilters st)\<rparr>)"

definition close :: "KMenuPalette \<Rightarrow> KMenuPalette" where
  "close st =
     st\<lparr>searchDebounceTimer := False, isOpen := False, input_value := [], results := [],
        selectedIndex := 0, activeFilters := []\<rparr>"

section \<open>Executing commands\<close>

definition executeCommandOnResource :: "KubeResource \<Rightarrow> KMenuPalette \<Rightarrow> KMenuPalette" where
  "executeCommandOnResource r st =
     (case activeCommand st of
        None \<Rightarrow> st
      | Some cmd \<Rightarrow>
          (case resourceTypes cmd of
             Some types \<Rightarrow>
               if kind r \<notin> set types then emit (Alert (OnlyWorksWith types)) st
               else close (emit (Execute (execute cmd) (Some r)) st)
           | None \<Rightarrow> close (emit (Execute (execute cmd) (Some r)) st)))"

definition executeCommand :: "int \<Rightarrow> KMenuPalette \<Rightarrow> KMenuPalette" where
  "executeCommand index st =
     (case at_index (filteredCommands st) index of
        None \<Rightarrow> st
      | Some command \<Rightarrow>
          if requiresResource command = Some True
          then
            (case at_index (results st) (selectedIndex st) of
               None \<Rightarrow>
                 handleInput
                   ((emit (Alert SelectResourceFirst) st)\<lparr>input_value := [], isCommandMode := False\<rparr>)
             | Some selectedResult \<Rightarrow>
                 (case resourceTypes command of
                    Some types \<Rightarrow>
                      if kind (resource selectedResult) \<notin> set types
                      then emit (Alert (OnlyWorksWith types)) st
                      else close (emit (Execute (execute command) (Some (resource selectedResult))) st)
                  | None \<Rightarrow>
                      close (emit (Execute (execute command) (Some (resource selectedResult))) st)))
          else close (emit (Execute (execute command) None) st))"

definition navigateToResource :: "KubeResource \<Rightarrow> KMenuPalette \<Rightarrow> KMenuPalette" where
  "navigateToResource r st =
     (if \<not> truthy (currentClusterId st) then st
      else case activeIframeSource st of
             None \<Rightarrow> st
           | Some frame \<Rightarrow> emit (NavigatePosted frame (the (currentClusterId st)) r) st)"

definition selectResult :: "int \<Rightarrow> KMenuPalette \<Rightarrow> KMenuPalette" where
  "selectResult index st =
     (case at_index (results st) index of
        None \<Rightarrow> st
      | Some result \<Rightarrow> close (navigateToResource (resource result) st))"

definition autocompleteFilterName :: "KMenuPalette \<Rightarrow> KMenuPalette" where
  "autocompleteFilterName st =
     (let query = toLowerCase (input_value st)
      in if CHR '':'' \<in> set query then st
         else
           let matches = filter (\<lambda>n. startsWith (toLowerCase n) query)
                           [''kind:'', ''namespace:'', ''node:'']
           in if matches \<noteq> [] then handleInput (st\<lparr>input_value := hd matches\<rparr>) else st)"

definition autocompleteCommand :: "KMenuPalette \<Rightarrow> KMenuPalette" where
  "autocompleteCommand st =
     (case at_index (filteredCommands st) (selectedCommandIndex st) of
        None \<Rightarrow> st
      | Some command \<Rightarrow> handleInput (st\<lparr>input_value := ''/'' @ label command\<rparr>))"

section \<open>The keyboard\<close>

datatype key = Tab | ArrowDown | ArrowUp | Enter | Escape | OtherKey

definition suggestionAt :: "KMenuPalette \<Rightarrow> string option" where
  \<comment> \<open>\<^verbatim>\<open>autocompleteSuggestions[autocompleteSelectedIndex]\<close> when the index is not negative
      and the entry is a non-empty string\<close>
  "suggestionAt st =
     (if autocompleteSelectedIndex st \<ge> 0
      then (case at_index (autocompleteSuggestions st) (autocompleteSelectedIndex st) of
              None \<Rightarrow> None
            | Some s \<Rightarrow> if s = [] then None else Some s)
      else None)"

definition handleKeyDown_normal :: "key \<Rightarrow> KMenuPalette \<Rightarrow> KMenuPalette" where
  \<comment> \<open>the last \<^verbatim>\<open>switch\<close> of \<^verbatim>\<open>handleKeyDown\<close>, under \<^verbatim>\<open>// Normal navigation mode\<close>\<close>
  "handleKeyDown_normal k st =
     (case k of
        Tab \<Rightarrow> autocompleteFilterName st
      | Escape \<Rightarrow> close st
      | ArrowDown \<Rightarrow>
          renderResults
            (st\<lparr>selectedIndex := min (selectedIndex st + 1) (int (length (results st)) - 1)\<rparr>)
      | ArrowUp \<Rightarrow> renderResults (st\<lparr>selectedIndex := max (selectedIndex st - 1) 0\<rparr>)
      | Enter \<Rightarrow> selectResult (selectedIndex st) st
      | OtherKey \<Rightarrow> st)"

definition handleKeyDown_suggest :: "key \<Rightarrow> KMenuPalette \<Rightarrow> KMenuPalette" where
  \<comment> \<open>from \<^verbatim>\<open>if (this.autocompleteSuggestions.length > 0)\<close> on; a key without a case
      falls through to the normal navigation\<close>
  "handleKeyDown_suggest k st =
     (if autocompleteSuggestions st \<noteq> []
      then (case k of
              Tab \<Rightarrow>
                st\<lparr>autocompleteSelectedIndex :=
                      (autocompleteSelectedIndex st + 1) mod int (length (autocompleteSuggestions st))\<rparr>
            | Enter \<Rightarrow>
                (case (suggestionAt st, autocompleteFilterType st) of
                   (Some s, Some filterType) \<Rightarrow> addFilter filterType s st
                 | _ \<Rightarrow> st)
            | Escape \<Rightarrow> close st
            | _ \<Rightarrow> handleKeyDown_normal k st)
      else handleKeyDown_normal k st)"

definition handleKeyDown_commandResource :: "key \<Rightarrow> KMenuPalette \<Rightarrow> KMenuPalette" where
  \<comment> \<open>the branches under \<^verbatim>\<open>if (this.activeCommand && this.commandSearchQuery)\<close> and its
      \<^verbatim>\<open>else\<close>\<close>
  "handleKeyDown_commandResource k st =
     (if activeCommand st \<noteq> None \<and> commandSearchQuery st \<noteq> []
      then (case k of
              Escape \<Rightarrow>
                handleInput (st\<lparr>input_value := [], isCommandMode := False, activeCommand := None,
                               commandSearchQuery := []\<rparr>)
            | ArrowDown \<Rightarrow>
                renderCommandResourceList
                  (st\<lparr>selectedIndex := min (selectedIndex st + 1) (int (length (results st)) - 1)\<rparr>)
            | ArrowUp \<Rightarrow>
                renderCommandResourceList (st\<lparr>selectedIndex := max (selectedIndex st - 1) 0\<rparr>)
            | Enter \<Rightarrow>
                (case at_index (results st) (selectedIndex st) of
                   None \<Rightarrow> st
                 | Some result \<Rightarrow> executeCommandOnResource (resource result) st)
            | _ \<Rightarrow> handleKeyDown_suggest k st)
      else (case k of
              Tab \<Rightarrow> autocompleteCommand st
            | Escape \<Rightarrow> handleInput (st\<lparr>input_value := [], isCommandMode := False\<rparr>)
            | ArrowDown \<Rightarrow>
                renderCommandList
                  (st\<lparr>selectedCommandIndex :=
                        min (selectedCommandIndex st + 1) (int (length (availableCommands st)) - 1)\<rparr>)
            | ArrowUp \<Rightarrow>
                renderCommandList (st\<lparr>selectedCommandIndex := max (selectedCommandIndex st - 1) 0\<rparr>)
            | Enter \<Rightarrow> executeCommand (selectedCommandIndex st) st
            | OtherKey \<Rightarrow> handleKeyDown_suggest k st))"

definition handleKeyDown :: "key \<Rightarrow> KMenuPalette \<Rightarrow> KMenuPalette" where
  "handleKeyDown k st =
     (if isCommandMode st
      then
        if autocompleteFilterType st \<noteq> None \<and> autocompleteSuggestions st \<noteq> []
        then (case k of
                Tab \<Rightarrow>
                  st\<lparr>autocompleteSelectedIndex :=
                        min (autocompleteSelectedIndex st + 1)
                          (int (length (autocompleteSuggestions st)) - 1)\<rparr>
              | ArrowDown \<Rightarrow>
                  st\<lparr>autocompleteSelectedIndex :=
                        min (autocompleteSelectedIndex st + 1)
                          (int (length (autocompleteSuggestions st)) - 1)\<rparr>
              | ArrowUp \<Rightarrow>
                  st\<lparr>autocompleteSelectedIndex := max (autocompleteSelectedIndex st - 1) 0\<rparr>
              | Enter \<Rightarrow>
                  (case (suggestionAt st, autocompleteFilterType st) of
                     (Some s, Some filterType) \<Rightarrow>
                       let st1 = addFilter filterType s st
                       in (case commandPrefixMatch (input_value st1) of
                             None \<Rightarrow> st1
                           | Some cmdName \<Rightarrow>
                               handleInput
                                 (st1\<lparr>input_value := ''/'' @ cmdName @ '' '',
                                      commandSearchQuery := [], autocompleteFilterType := None,
                                      autocompleteSuggestions := [],
                                      autocompleteSelectedIndex := -1\<rparr>))
                   | _ \<Rightarrow> st)
              | Escape \<Rightarrow>
                  handleInput
                    (st\<lparr>input_value := [], isCommandMode := False, activeCommand := None,
                        commandSearchQuery := [], autocompleteFilterType := None,
                        autocompleteSuggestions := [], autocompleteSelectedIndex := -1\<rparr>)
              | OtherKey \<Rightarrow> handleKeyDown_commandResource k st)
        else handleKeyDown_commandResource k st
      else handleKeyDown_suggest k st)"

section \<open>Loading resources and the cache\<close>

text \<open>
  The asynchronous functions stop at one \<^verbatim>\<open>await\<close>, on the promise of a request to the
  cluster frame. Each is modelled in two parts: the function itself runs up to the
  \<^verbatim>\<open>await\<close> and says whether it is waiting there (\<open>True\<close>), and its \<open>_resume\<close> runs from
  the settled promise to the end. Events of the palette may happen in between.
\<close>

definition loadResourcesViaIPC_cache :: "KMenuPalette \<Rightarrow> KMenuPalette" where
  \<comment> \<open>the \<^verbatim>\<open>try\<close> block from \<^verbatim>\<open>// Cache the resources for this cluster\<close> on\<close>
  "loadResourcesViaIPC_cache st =
     handleInput
       (if truthy (currentClusterId st)
        then st\<lparr>resourceCache := (resourceCache st)(the (currentClusterId st) \<mapsto> allResources st)\<rparr>
        else st)"

definition loadResourcesViaIPC_finally :: "KMenuPalette \<Rightarrow> KMenuPalette" where
  "loadResourcesViaIPC_finally st = st\<lparr>loadingIndicator := False, resultsListShown := True\<rparr>"

definition loadResourcesViaIPC :: "bool \<Rightarrow> KMenuPalette \<Rightarrow> bool \<times> KMenuPalette" where
  "loadResourcesViaIPC showLoading st =
     (let st1 = (if showLoading then st\<lparr>loadingIndicator := True, resultsListShown := False\<rparr>
                 else st)
      in case activeIframeSource st1 of
           Some frame \<Rightarrow> (True, emit (Requested frame GetResources) st1)
         | None \<Rightarrow>
             (False,
              loadResourcesViaIPC_finally (loadResourcesViaIPC_cache (st1\<lparr>allResources := []\<rparr>))))"

definition loadResourcesViaIPC_resume ::
  "KubeResource list settled \<Rightarrow> KMenuPalette \<Rightarrow> KMenuPalette" where
  "loadResourcesViaIPC_resume outcome st =
     loadResourcesViaIPC_finally
       (case outcome of
          Resolved resources \<Rightarrow> loadResourcesViaIPC_cache (st\<lparr>allResources := resources\<rparr>)
        | Rejected error \<Rightarrow> handleInput (st\<lparr>allResources := []\<rparr>))"

definition hasCache :: "KMenuPalette \<Rightarrow> bool" where
  "hasCache st =
     (truthy (currentClusterId st) \<and> resourceCache st (the (currentClusterId st)) \<noteq> None)"

definition loadResources :: "KMenuPalette \<Rightarrow> bool \<times> KMenuPalette" where
  \<comment> \<open>on a cache hit the refresh is started and not awaited: \<open>False\<close> is returned while the
      request is on its way\<close>
  "loadResources st =
     (if activeIframeSource st \<noteq> None \<or> truthy (currentClusterId st)
      then
        if hasCache st
        then
          let st1 = renderResults
                      (st\<lparr>allResources := the (resourceCache st (the (currentClusterId st)))\<rparr>)
          in (False, snd (loadResourcesViaIPC False st1))
        else loadResourcesViaIPC True st
      else (False, handleInput (st\<lparr>allResources := []\<rparr>)))"

definition logsCommand :: Command where
  "logsCommand =
     \<lparr>cmd_id = ''logs'', label = ''logs'', description = ''View pod logs'',
      requiresResource = Some True, resourceTypes = Some [''Pod''], execute = ViewLogs\<rparr>"

definition describeCommand :: Command where
  "describeCommand =
     \<lparr>cmd_id = ''describe'', label = ''describe'',
      description = ''Show detailed resource information'',
      requiresResource = Some True, resourceTypes = None, execute = Describe\<rparr>"

definition deleteCommand :: Command where
  "deleteCommand =
     \<lparr>cmd_id = ''delete'', label = ''delete'',
      description = ''Delete the selected resource (requires confirmation)'',
      requiresResource = Some True, resourceTypes = None, execute = Delete\<rparr>"

definition refreshCommand :: Command where
  "refreshCommand =
     \<lparr>cmd_id = ''refresh'', label = ''refresh'',
      description = ''Reload all resources from the cluster'',
      requiresResource = Some False, resourceTypes = None, execute = Refresh\<rparr>"

definition initializeCommands :: "Command list \<Rightarrow> KMenuPalette \<Rightarrow> KMenuPalette" where
  \<comment> \<open>the first argument is what \<^verbatim>\<open>buildNavigationCommands\<close> returns, one command for each
      cluster of the catalog\<close>
  "initializeCommands navigationCommands st =
     st\<lparr>availableCommands :=
          navigationCommands @ [logsCommand, describeCommand, deleteCommand, refreshCommand]\<rparr>"

definition open_palette :: "Command list \<Rightarrow> KMenuPalette \<Rightarrow> bool \<times> KMenuPalette" where
  \<comment> \<open>\<^verbatim>\<open>open()\<close>\<close>
  "open_palette navigationCommands st =
     (let st1 = initializeCommands navigationCommands (st\<lparr>isOpen := True\<rparr>);
          inCluster = (activeIframeSource st1 \<noteq> None \<or> currentClusterId st1 \<noteq> None)
      in if inCluster
         then (case loadResources st1 of
                 (True, st2) \<Rightarrow> (True, st2)
               | (False, st2) \<Rightarrow> (False, renderResults st2))
         else (False, renderResults (st1\<lparr>allResources := []\<rparr>)))"

definition open_palette_resume :: "KubeResource list settled \<Rightarrow> KMenuPalette \<Rightarrow> KMenuPalette" where
  \<comment> \<open>\<^verbatim>\<open>open()\<close> after its awaited \<^verbatim>\<open>loadResources()\<close>\<close>
  "open_palette_resume outcome st = renderResults (loadResourcesViaIPC_resume outcome st)"

definition refreshResources :: "KMenuPalette \<Rightarrow> bool \<times> KMenuPalette" where
  "refreshResources st =
     (if truthy (currentClusterId st)
      then (case loadResources (st\<lparr>resourceCache := (resourceCache st)(the (currentClusterId st) := None)\<rparr>) of
              (True, st1) \<Rightarrow> (True, st1)
            | (False, st1) \<Rightarrow> (False, renderResults st1))
      else (False, st))"

definition refreshResources_resume ::
  "KubeResource list settled \<Rightarrow> KMenuPalette \<Rightarrow> KMenuPalette" where
  "refreshResources_resume outcome st = renderResults (loadResourcesViaIPC_resume outcome st)"

section \<open>The delete command\<close>

text \<open>
  The \<^verbatim>\<open>execute\<close> closure of the command \<^verbatim>\<open>delete\<close>. The answer of the \<^verbatim>\<open>confirm\<close>
  dialog is an argument. \<open>delete_execute\<close> runs to the \<^verbatim>\<open>await\<close> of
  \<^verbatim>\<open>deleteResource\<close> (which throws at once, into the closure's \<^verbatim>\<open>catch\<close>, when there is no
  cluster frame), \<open>delete_execute_resume\<close> from there to the \<^verbatim>\<open>await\<close> of
  \<^verbatim>\<open>refreshResources\<close>.
\<close>

definition resourceName :: "KubeResource \<Rightarrow> string" where
  "resourceName r =
     (if truthy (namespace r) then kind r @ ''/'' @ the (namespace r) @ ''/'' @ name r
      else kind r @ ''/'' @ name r)"

definition delete_execute ::
  "KubeResource option \<Rightarrow> bool \<Rightarrow> KMenuPalette \<Rightarrow> bool \<times> KMenuPalette" where
  "delete_execute res confirmed st =
     (case res of
        None \<Rightarrow> (False, st)
      | Some r \<Rightarrow>
          let st1 = emit (ConfirmPrompt (resourceName r)) st
          in if confirmed
             then (case activeIframeSource st1 of
                     None \<Rightarrow>
                       (False,
                        emit (Alert (DeleteFailed (resourceName r) ''Error: No active cluster iframe''))
                          st1)
                   | Some frame \<Rightarrow> (True, emit (Requested frame (DeleteResource r)) st1))
             else (False, st1))"

definition delete_execute_resume ::
  "KubeResource \<Rightarrow> unit settled \<Rightarrow> KMenuPalette \<Rightarrow> bool \<times> KMenuPalette" where
  "delete_execute_resume r outcome st =
     (case outcome of
        Resolved u \<Rightarrow> refreshResources (emit (Alert (DeleteSucceeded (resourceName r))) st)
      | Rejected error \<Rightarrow>
          (False, emit (Alert (DeleteFailed (resourceName r) (''Error: '' @ error))) st))"

section \<open>The request channel\<close>

text \<open>
  \<^verbatim>\<open>requestResourcesFromIframe\<close>, \<^verbatim>\<open>requestDeleteResourceFromIframe\<close> and
  \<^verbatim>\<open>requestLogsFromIframe\<close> are one text with three sets of constants: each makes a
  promise, starts a timer of 10000 ms, adds a listener for \<^verbatim>\<open>message\<close> events to the
  window and posts its request. They are modelled on the state of the window's event
  loop: its clock (in ms), the listeners and the running timers, each under the number of
  the promise whose closure it belongs to, the promises, and a log of the calls of
  \<^verbatim>\<open>cleanup\<close>. The \<^verbatim>\<open>requestId\<close> that \<^verbatim>\<open>Math.random\<close> yields is an argument.
\<close>

datatype request_kind = ResourcesRequest | DeleteRequest | LogsRequest

definition requestType :: "request_kind \<Rightarrow> string" where
  "requestType k =
     (case k of ResourcesRequest \<Rightarrow> ''k-menu-get-resources''
      | DeleteRequest \<Rightarrow> ''k-menu-delete-resource''
      | LogsRequest \<Rightarrow> ''k-menu-open-logs'')"

definition responseType :: "request_kind \<Rightarrow> string" where
  "responseType k =
     (case k of ResourcesRequest \<Rightarrow> ''k-menu-resources-response''
      | DeleteRequest \<Rightarrow> ''k-menu-delete-response''
      | LogsRequest \<Rightarrow> ''k-menu-logs-response'')"

definition timeoutError :: "request_kind \<Rightarrow> string" where
  "timeoutError k =
     (case k of ResourcesRequest \<Rightarrow> ''Resource request timeout''
      | DeleteRequest \<Rightarrow> ''Delete request timeout''
      | LogsRequest \<Rightarrow> ''Logs request timeout'')"

definition timeoutDelay :: nat where
  "timeoutDelay = 10000"

record message_data =
  data_type :: "string option"
  data_requestId :: "string option"
  data_error :: "string option"
  data_resources :: "KubeResource list option"

datatype response = Resources "KubeResource list" | NoValue

record window =
  clock :: nat
  nextPromise :: nat
  listeners :: "(nat \<times> request_kind \<times> string) list"
  timers :: "(nat \<times> nat \<times> request_kind) list"
  promises :: "nat \<rightharpoonup> response settled"
  cleanups :: "nat list"
  posted :: "(string \<times> string) list"

definition window0 :: window where
  "window0 = \<lparr>clock = 0, nextPromise = 0, listeners = [], timers = [], promises = Map.empty,
              cleanups = [], posted = []\<rparr>"

definition settle :: "nat \<Rightarrow> response settled \<Rightarrow> window \<Rightarrow> window" where
  \<comment> \<open>\<^verbatim>\<open>resolve\<close> and \<^verbatim>\<open>reject\<close>: a promise keeps its first outcome\<close>
  "settle p outcome w =
     (if promises w p = None then w\<lparr>promises := (promises w)(p \<mapsto> outcome)\<rparr> else w)"

definition cleanup :: "nat \<Rightarrow> window \<Rightarrow> window" where
  \<comment> \<open>\<^verbatim>\<open>clearTimeout(timeout)\<close> and \<^verbatim>\<open>removeEventListener('message', messageHandler)\<close>\<close>
  "cleanup p w =
     w\<lparr>timers := filter (\<lambda>t. fst t \<noteq> p) (timers w),
       listeners := filter (\<lambda>l. fst l \<noteq> p) (listeners w),
       cleanups := cleanups w @ [p]\<rparr>"

definition requestFromIframe :: "request_kind \<Rightarrow> string \<Rightarrow> window \<Rightarrow> window" where
  "requestFromIframe k requestId w =
     (let p = nextPromise w
      in w\<lparr>nextPromise := p + 1,
           timers := timers w @ [(p, clock w + timeoutDelay, k)],
           listeners := listeners w @ [(p, k, requestId)],
           posted := posted w @ [(requestType k, requestId)]\<rparr>)"

definition isResponseFor :: "request_kind \<Rightarrow> string \<Rightarrow> message_data option \<Rightarrow> bool" where
  \<comment> \<open>\<^verbatim>\<open>event.data?.type === '...' && event.data?.requestId === requestId\<close>\<close>
  "isResponseFor k requestId d =
     (case d of
        None \<Rightarrow> False
      | Some m \<Rightarrow> data_type m = Some (responseType k) \<and> data_requestId m = Some requestId)"

definition responseOutcome :: "request_kind \<Rightarrow> message_data option \<Rightarrow> response settled" where
  \<comment> \<open>what the handler settles its promise with: \<^verbatim>\<open>reject(new Error(event.data.error))\<close>
      under a truthy \<^verbatim>\<open>error\<close>, else \<^verbatim>\<open>resolve(event.data.resources || [])\<close> for a
      resources request and \<^verbatim>\<open>resolve()\<close> for the other two\<close>
  "responseOutcome k d =
     (if truthy (data_error (the d)) then Rejected (the (data_error (the d)))
      else Resolved
             (case k of
                ResourcesRequest \<Rightarrow>
                  Resources (case data_resources (the d) of None \<Rightarrow> [] | Some rs \<Rightarrow> rs)
              | _ \<Rightarrow> NoValue))"

definition messageHandler ::
  "nat \<times> request_kind \<times> string \<Rightarrow> message_data option \<Rightarrow> window \<Rightarrow> window" where
  "messageHandler l d w =
     (case l of
        (p, k, requestId) \<Rightarrow>
          if isResponseFor k requestId d then settle p (responseOutcome k d) (cleanup p w)
          else w)"

definition timeoutFired :: "nat \<times> nat \<times> request_kind \<Rightarrow> window \<Rightarrow> window" where
  \<comment> \<open>the callback of \<^verbatim>\<open>setTimeout\<close>\<close>
  "timeoutFired t w =
     (case t of (p, expiry, k) \<Rightarrow> settle p (Rejected (timeoutError k)) (cleanup p w))"

definition dispatchMessage :: "message_data option \<Rightarrow> window \<Rightarrow> window" where
  \<comment> \<open>a \<^verbatim>\<open>message\<close> event: the listeners registered when it is dispatched are called in
      turn, one that has been removed by then is not\<close>
  "dispatchMessage d w =
     fold (\<lambda>l w'. if fst l \<in> fst ` set (listeners w') then messageHandler l d w' else w')
       (listeners w) w"

definition advance :: "nat \<Rightarrow> window \<Rightarrow> window" where
  \<comment> \<open>the clock reaches \<open>t\<close>: the timers due by then fire, one that has been cleared by
      then does not\<close>
  "advance t w =
     (let w1 = w\<lparr>clock := max (clock w) t\<rparr>
      in fold (\<lambda>tm w'. if fst tm \<in> fst ` set (timers w') then timeoutFired tm w' else w')
           (filter (\<lambda>tm. fst (snd tm) \<le> clock w1) (timers w)) w1)"

datatype event =
    RequestIssued request_kind string
  | MessageEvent "message_data option"
  | TimePasses nat

fun step :: "event \<Rightarrow> window \<Rightarrow> window" where
  "step (RequestIssued k requestId) w = requestFromIframe k requestId w"
| "step (MessageEvent d) w = dispatchMessage d w"
| "step (TimePasses t) w = advance t w"

definition run :: "event list \<Rightarrow> window \<Rightarrow> window" where
  "run es w = fold step es w"

text \<open>
  Two properties of a window that every run keeps, and what it is for a request to be
  waiting still; they serve the proofs about the channel.
\<close>

definition registered :: "window \<Rightarrow> bool" where
  \<comment> \<open>the listeners and the timers are those of the pending promises, one each; a
      promise is settled exactly when its cleanup has run, and then it has run once\<close>
  "registered w =
     (distinct (map fst (listeners w)) \<and> distinct (map fst (timers w))
      \<and> fst ` set (listeners w) = {p. p < nextPromise w \<and> promises w p = None}
      \<and> fst ` set (timers w) = {p. p < nextPromise w \<and> promises w p = None}
      \<and> (\<forall>p. count_list (cleanups w) p
               = (if p < nextPromise w \<and> promises w p \<noteq> None then 1 else 0))
      \<and> (\<forall>p. nextPromise w \<le> p \<longrightarrow> promises w p = None))"

definition timers_ahead :: "window \<Rightarrow> bool" where
  \<comment> \<open>every running timer is due later than now, and within the delay\<close>
  "timers_ahead w =
     list_all (\<lambda>t. clock w < fst (snd t) \<and> fst (snd t) \<le> clock w + timeoutDelay) (timers w)"

definition awaiting :: "nat \<Rightarrow> request_kind \<Rightarrow> string \<Rightarrow> nat \<Rightarrow> window \<Rightarrow> bool" where
  \<comment> \<open>promise \<open>p\<close> of a request is pending, its listener and its timer in place\<close>
  "awaiting p k requestId expiry w =
     (promises w p = None \<and> (p, k, requestId) \<in> set (listeners w)
      \<and> (p, expiry, k) \<in> set (timers w))"

section \<open>The palette as constructed\<close>

definition initial :: KMenuPalette where
  \<comment> \<open>the field initialisers of the class \<^verbatim>\<open>KMenuPalette\<close>\<close>
  "initial =
     \<lparr>isOpen = False, input_value = [], selectedIndex = 0, results = [], allResources = [],
      activeFilters = [], autocompleteSuggestions = [], autocompleteSelectedIndex = -1,
      autocompleteFilterType = None, isCommandMode = False, availableCommands = [],
      selectedCommandIndex = 0, activeCommand = None, commandSearchQuery = [],
      resourceCache = Map.empty, currentClusterId = None, searchDebounceTimer = False,
      activeIframeSource = None, loadingIndicator = False, resultsListShown = True,
      resultsList = EmptyView LoadingResources, effects = []\<rparr>"

section \<open>The specification's wording\<close>

text \<open>
  The definitions of this section are not taken from the source: they write down the
  tests and scores that the specification describes, to be compared with the code.
\<close>

definition equalsIgnoreCase :: "string \<Rightarrow> string \<Rightarrow> bool" where
  "equalsIgnoreCase a b = (toLowerCase a = toLowerCase b)"

definition spec_filterTest :: "Filter \<Rightarrow> KubeResource \<Rightarrow> bool" where
  \<comment> \<open>a kind or namespace filter is a case-insensitive equality test on the field; a
      node filter holds of a resource whose kind is \<open>Node\<close> and whose name equals the value\<close>
  "spec_filterTest f r =
     (case filter_type f of
        Kind \<Rightarrow> equalsIgnoreCase (kind r) (filter_value f)
      | Namespace \<Rightarrow> (\<exists>ns. namespace r = Some ns \<and> equalsIgnoreCase ns (filter_value f))
      | Node \<Rightarrow> kind r = ''Node'' \<and> name r = filter_value f)"

definition filterTest :: "Filter \<Rightarrow> KubeResource \<Rightarrow> bool" where
  \<comment> \<open>as \<open>spec_filterTest\<close>, the name under a node filter compared without regard to case\<close>
  "filterTest f r =
     (case filter_type f of
        Kind \<Rightarrow> equalsIgnoreCase (kind r) (filter_value f)
      | Namespace \<Rightarrow> (\<exists>ns. namespace r = Some ns \<and> equalsIgnoreCase ns (filter_value f))
      | Node \<Rightarrow> kind r = ''Node'' \<and> equalsIgnoreCase (name r) (filter_value f))"

definition tierOf :: "string \<Rightarrow> string \<Rightarrow> string \<Rightarrow> string \<Rightarrow> string \<Rightarrow> rat option" where
  \<comment> \<open>the score of one term, given the display text, the name, the kind and the
      namespace of an item: the first of the tiers that matches; the last tier is the
      term occurring in the display text as a subsequence, scored as the characters
      matched by the length of the term, weighted by 2; \<open>None\<close> when no tier matches\<close>
  "tierOf display nm kd ns term =
     (if js_includes display term then Some 10
      else if js_includes nm term then Some 8
      else if js_includes kd term then Some 6
      else if js_includes ns term then Some 5
      else if subseq term display
      then Some (of_nat (length term) / of_nat (length term) * 2)
      else None)"

definition tierScore :: "KubeResource \<Rightarrow> string \<Rightarrow> rat option" where
  \<comment> \<open>the tiers read without regard to case: on the lowered texts of the item (its
      namespace the empty text when it has none), the term being lowered already\<close>
  "tierScore r term =
     tierOf (toLowerCase (getDisplayText r)) (toLowerCase (name r)) (toLowerCase (kind r))
       (case namespace r of None \<Rightarrow> [] | Some ns \<Rightarrow> toLowerCase ns) term"

definition matchesAll :: "string list \<Rightarrow> KubeResource \<Rightarrow> bool" where
  \<comment> \<open>every term matches the item on one of the tiers\<close>
  "matchesAll terms r = list_all (\<lambda>term. tierScore r term \<noteq> None) terms"

definition ranked :: "string list \<Rightarrow> KubeResource \<Rightarrow> SearchResult" where
  \<comment> \<open>an item with the sum of the scores of the terms\<close>
  "ranked terms r =
     \<lparr>resource = r, displayText = getDisplayText r,
      matchScore = sum_list (map (\<lambda>term. the (tierScore r term)) terms)\<rparr>"

definition spec_fieldValues :: "FilterType \<Rightarrow> KubeResource list \<Rightarrow> string list" where
  \<comment> \<open>the distinct values of the field of an attribute across a resource set: the kinds;
      the namespaces of the resources that have one; the names of the nodes\<close>
  "spec_fieldValues attribute rs =
     (case attribute of
        Kind \<Rightarrow> remdups (map kind rs)
      | Namespace \<Rightarrow> remdups (concat (map (\<lambda>r. case namespace r of None \<Rightarrow> []
                                              | Some ns \<Rightarrow> if ns = [] then [] else [ns]) rs))
      | Node \<Rightarrow> remdups (map name (filter (\<lambda>r. kind r = ''Node'') rs)))"

definition spec_suggestions ::
  "FilterType \<Rightarrow> string \<Rightarrow> string list option \<Rightarrow> KubeResource list \<Rightarrow> string list" where
  \<comment> \<open>the distinct field values, narrowed to the accepted kinds of the active command when
      there are any, sorted, filtered by case-insensitive substring match against the
      partial value, and capped at 10, or at 8 under a non-empty partial value\<close>
  "spec_suggestions attribute partial acceptedKinds rs =
     (let narrowed =
            (case (attribute, acceptedKinds) of
               (Kind, Some kinds) \<Rightarrow> filter (\<lambda>v. v \<in> set kinds) (spec_fieldValues attribute rs)
             | _ \<Rightarrow> spec_fieldValues attribute rs)
      in take (if partial = [] then 10 else 8)
           (filter (\<lambda>v. js_includes (toLowerCase v) (toLowerCase partial)) (sort narrowed)))"

section \<open>Sample data\<close>

text \<open>The concrete resources and commands at which the theorems below are instantiated.\<close>

definition pod_a :: KubeResource where
  "pod_a = \<lparr>kind = ''Pod'', name = ''a'', namespace = Some ''ns1'', uid = ''u1'', apiVersion = ''v1''\<rparr>"

definition pod_b :: KubeResource where
  "pod_b = \<lparr>kind = ''Pod'', name = ''b'', namespace = Some ''ns2'', uid = ''u2'', apiVersion = ''v1''\<rparr>"

definition service_a :: KubeResource where
  "service_a =
     \<lparr>kind = ''Service'', name = ''a'', namespace = Some ''ns1'', uid = ''u3'', apiVersion = ''v1''\<rparr>"

definition node_w :: KubeResource where
  "node_w =
     \<lparr>kind = ''Node'', name = ''Worker1'', namespace = None, uid = ''u4'', apiVersion = ''v1''\<rparr>"

definition many_pods :: "KubeResource list" where
  \<comment> \<open>51 pods, named \<open>x\<close>, \<open>xx\<close>, \<open>xxx\<close> and so on\<close>
  "many_pods =
     map (\<lambda>i. \<lparr>kind = ''Pod'', name = replicate (Suc i) (CHR ''x''), namespace = Some ''ns1'',
               uid = [], apiVersion = ''v1''\<rparr>) [0..<51]"

definition cached :: KMenuPalette where
  \<comment> \<open>a closed palette in the cluster \<open>c1\<close>, two pods cached from an earlier opening\<close>
  "cached =
     initial\<lparr>currentClusterId := Some ''c1'', activeIframeSource := Some 0,
       resourceCache := [''c1'' \<mapsto> [pod_a, pod_b]]\<rparr>"

definition nine_namespaces :: "KubeResource list" where
  \<comment> \<open>nine pods, in the namespaces \<open>ns1\<close> to \<open>ns9\<close>\<close>
  "nine_namespaces =
     map (\<lambda>c. \<lparr>kind = ''Pod'', name = ''p'', namespace = Some (''ns'' @ [c]), uid = [],
               apiVersion = ''v1''\<rparr>) ''123456789''"

definition typed :: "string \<Rightarrow> KubeResource list \<Rightarrow> KMenuPalette" where
  \<comment> \<open>an open palette with the four resource commands, over the given resources, the
      given text in its buffer\<close>
  "typed buffer rs =
     initial\<lparr>isOpen := True, input_value := buffer, allResources := rs,
       availableCommands := [logsCommand, describeCommand, deleteCommand, refreshCommand]\<rparr>"

definition hit :: "KubeResource \<Rightarrow> SearchResult" where
  "hit r = \<lparr>resource = r, displayText = getDisplayText r, matchScore = 1\<rparr>"

definition commandList :: KMenuPalette where
  \<comment> \<open>an open palette on the command list, \<^verbatim>\<open>/logs\<close> typed\<close>
  "commandList =
     initial\<lparr>isOpen := True, input_value := ''/logs'', isCommandMode := True,
       availableCommands := [logsCommand, describeCommand, deleteCommand, refreshCommand]\<rparr>"

section \<open>Properties of the fuzzy match\<close>

lemma fuzzyMatch_loop_score:
  "fst (fuzzyMatch_loop t q i s qi) + qi = snd (fuzzyMatch_loop t q i s qi) + s"
  by (induction t q i s qi rule: fuzzyMatch_loop.induct)
     (subst (1 2) fuzzyMatch_loop.simps, simp)

lemma subseq_Nil_iff: "subseq xs [] = (xs = [])"
  by (auto dest: list_emb_Nil2)

lemma fuzzyMatch_loop_index:
  "qi \<le> length q \<Longrightarrow>
   (snd (fuzzyMatch_loop t q i s qi) = length q) = subseq (drop qi q) (drop i t)"
proof (induction t q i s qi rule: fuzzyMatch_loop.induct)
  case (1 t q i score queryIndex)
  show ?case
  proof (cases "i < length t \<and> queryIndex < length q")
    case True
    then have t: "drop i t = t ! i # drop (i + 1) t"
      and q: "drop queryIndex q = q ! queryIndex # drop (queryIndex + 1) q"
      by (simp_all add: Cons_nth_drop_Suc)
    show ?thesis
    proof (cases "t ! i = q ! queryIndex")
      case eq: True
      with True 1 show ?thesis
        by (subst fuzzyMatch_loop.simps) (simp add: t q)
    next
      case neq: False
      with True 1 show ?thesis
        by (subst fuzzyMatch_loop.simps) (simp add: t q subseq_Cons2_neq)
    qed
  next
    case False
    have "snd (fuzzyMatch_loop t q i score queryIndex) = queryIndex"
      using False by (subst fuzzyMatch_loop.simps) auto
    moreover have "subseq (drop queryIndex q) (drop i t) = (queryIndex = length q)"
    proof (cases "queryIndex < length q")
      case True
      with False have "drop i t = []" by simp
      with True show ?thesis by (simp add: subseq_Nil_iff)
    next
      case False
      with 1(3) show ?thesis by simp
    qed
    ultimately show ?thesis by simp
  qed
qed

lemma fuzzyMatch_eq:
  "query \<noteq> [] \<Longrightarrow> fuzzyMatch t query = (if subseq query t then Num 1 else Num 0)"
  using fuzzyMatch_loop_score [of t query 0 0 0] fuzzyMatch_loop_index [of 0 query t 0 0]
  by (auto simp: fuzzyMatch_def js_div_def split: prod.splits)

text \<open>
  C10. For a non-empty query, \<open>fuzzyMatch text query\<close> is exactly 1 when the characters
  of the query occur in the text in order, as a subsequence, and exactly 0 otherwise: the
  quotient of the matched characters by the length of the query is never strictly
  between 0 and 1. On the fallback of \<open>scoreTerms\<close> a match therefore adds exactly 2 to
  the total.
\<close>

theorem fuzzyMatch_zero_or_one:
  "query \<noteq> [] \<Longrightarrow>
     fuzzyMatch t query = (if subseq query t then Num 1 else Num 0)
     \<and> (\<not> js_includes d query \<and> \<not> js_includes n query \<and> \<not> js_includes k query
          \<and> \<not> js_includes ns query \<and> subseq query d
        \<longrightarrow> scoreTerms d n k ns [query] score = Some (score + 2))"
  by (simp add: fuzzyMatch_eq)

theorem fuzzyMatch_zero_or_one_witness:
  "''pnx'' \<noteq> [] \<and> fuzzyMatch ''pod/ns1/nginx'' ''pnx'' = Num 1
   \<and> fuzzyMatch ''pod/ns1/nginx'' ''xp'' = Num 0
   \<and> scoreTerms ''pod/ns1/nginx'' ''nginx'' ''pod'' ''ns1'' [''pnx''] 0 = Some 2"
proof -
  have "\<not> js_includes ''pod/ns1/nginx'' ''pnx''" "\<not> js_includes ''nginx'' ''pnx''"
    "\<not> js_includes ''pod'' ''pnx''" "\<not> js_includes ''ns1'' ''pnx''"
    by simp_all
  then show ?thesis
    using fuzzyMatch_zero_or_one [of "''pnx''" "''pod/ns1/nginx''" "''pod/ns1/nginx''"
        "''nginx''" "''pod''" "''ns1''" 0]
      fuzzyMatch_zero_or_one [of "''xp''" "''pod/ns1/nginx''"]
    by (simp add: subseq_Cons2_iff subseq_Nil_iff)
qed

section \<open>What the render and hint functions leave alone\<close>

lemma renderResults_fields [simp]:
  "activeFilters (renderResults st) = activeFilters st"
  "effects (renderResults st) = effects st"
  "isOpen (renderResults st) = isOpen st"
  "input_value (renderResults st) = input_value st"
  "allResources (renderResults st) = allResources st"
  "resourceCache (renderResults st) = resourceCache st"
  "isCommandMode (renderResults st) = isCommandMode st"
  "results (renderResults st) = results st"
  by (simp_all add: renderResults_def)

lemma performSearch_fields [simp]:
  "activeFilters (performSearch st) = activeFilters st"
  "effects (performSearch st) = effects st"
  "isOpen (performSearch st) = isOpen st"
  "input_value (performSearch st) = input_value st"
  "allResources (performSearch st) = allResources st"
  "resourceCache (performSearch st) = resourceCache st"
  "isCommandMode (performSearch st) = isCommandMode st"
  by (simp_all add: performSearch_def Let_def)

lemma renderCommandList_fields [simp]:
  "activeFilters (renderCommandList st) = activeFilters st"
  "effects (renderCommandList st) = effects st"
  "isOpen (renderCommandList st) = isOpen st"
  "input_value (renderCommandList st) = input_value st"
  "allResources (renderCommandList st) = allResources st"
  "resourceCache (renderCommandList st) = resourceCache st"
  "isCommandMode (renderCommandList st) = isCommandMode st"
  by (simp_all add: renderCommandList_def)

lemma renderCommandResourceList_fields [simp]:
  "activeFilters (renderCommandResourceList st) = activeFilters st"
  "effects (renderCommandResourceList st) = effects st"
  "isOpen (renderCommandResourceList st) = isOpen st"
  "input_value (renderCommandResourceList st) = input_value st"
  "allResources (renderCommandResourceList st) = allResources st"
  "resourceCache (renderCommandResourceList st) = resourceCache st"
  "isCommandMode (renderCommandResourceList st) = isCommandMode st"
  by (simp_all add: renderCommandResourceList_def Let_def split: option.splits)

lemma setSuggestions_fields [simp]:
  "activeFilters (setSuggestions s st) = activeFilters st"
  "effects (setSuggestions s st) = effects st"
  "isOpen (setSuggestions s st) = isOpen st"
  "input_value (setSuggestions s st) = input_value st"
  "allResources (setSuggestions s st) = allResources st"
  "resourceCache (setSuggestions s st) = resourceCache st"
  "isCommandMode (setSuggestions s st) = isCommandMode st"
  by (simp_all add: setSuggestions_def)

lemma sortResourceTypes_fields [simp]:
  "activeFilters (sortResourceTypes i st) = activeFilters st"
  "effects (sortResourceTypes i st) = effects st"
  "isOpen (sortResourceTypes i st) = isOpen st"
  "input_value (sortResourceTypes i st) = input_value st"
  "allResources (sortResourceTypes i st) = allResources st"
  "resourceCache (sortResourceTypes i st) = resourceCache st"
  "isCommandMode (sortResourceTypes i st) = isCommandMode st"
  by (simp_all add: sortResourceTypes_def Let_def split: option.splits)

lemma showCommandList_fields [simp]:
  "activeFilters (showCommandList st) = activeFilters st"
  "effects (showCommandList st) = effects st"
  "isOpen (showCommandList st) = isOpen st"
  "input_value (showCommandList st) = input_value st"
  "allResources (showCommandList st) = allResources st"
  "resourceCache (showCommandList st) = resourceCache st"
  "isCommandMode (showCommandList st) = isCommandMode st"
  by (simp_all add: showCommandList_def)

lemma commandHint_fields [simp]:
  "activeFilters (commandHint i q st) = activeFilters st"
  "effects (commandHint i q st) = effects st"
  "isOpen (commandHint i q st) = isOpen st"
  "input_value (commandHint i q st) = input_value st"
  "allResources (commandHint i q st) = allResources st"
  "resourceCache (commandHint i q st) = resourceCache st"
  "isCommandMode (commandHint i q st) = isCommandMode st"
  by (simp_all add: commandHint_def Let_def split: option.splits prod.splits)

lemma plainHint_fields [simp]:
  "activeFilters (plainHint st) = activeFilters st"
  "effects (plainHint st) = effects st"
  "isOpen (plainHint st) = isOpen st"
  "input_value (plainHint st) = input_value st"
  "allResources (plainHint st) = allResources st"
  "resourceCache (plainHint st) = resourceCache st"
  "isCommandMode (plainHint st) = isCommandMode st"
  by (simp_all add: plainHint_def Let_def split: option.splits prod.splits)

lemma updateAutocompleteHint_fields [simp]:
  "activeFilters (updateAutocompleteHint st) = activeFilters st"
  "effects (updateAutocompleteHint st) = effects st"
  "isOpen (updateAutocompleteHint st) = isOpen st"
  "input_value (updateAutocompleteHint st) = input_value st"
  "allResources (updateAutocompleteHint st) = allResources st"
  "resourceCache (updateAutocompleteHint st) = resourceCache st"
  by (simp_all add: updateAutocompleteHint_def Let_def split: option.splits prod.splits)

lemma handleInput_fields [simp]:
  "activeFilters (handleInput st) = activeFilters st"
  "effects (handleInput st) = effects st"
  "isOpen (handleInput st) = isOpen st"
  "input_value (handleInput st) = input_value st"
  "allResources (handleInput st) = allResources st"
  "resourceCache (handleInput st) = resourceCache st"
  by (simp_all add: handleInput_def)

section \<open>Filters\<close>

lemmas string_eval = toLowerCase_def toLowerCaseChar_def char_of_def bit_0 isSpace_def
  split_ws_def isWordChar_def isLineTerminator_def

lemma filter_present:
  "list_ex (\<lambda>f. filter_type f = t \<and> filter_value f = v) fs
     = (\<lparr>filter_type = t, filter_value = v\<rparr> \<in> set fs)"
  by (induction fs) auto

lemma activeFilters_addFilter:
  "activeFilters (addFilter t v st) =
     (if \<lparr>filter_type = t, filter_value = v\<rparr> \<in> set (activeFilters st) then activeFilters st
      else activeFilters st @ [\<lparr>filter_type = t, filter_value = v\<rparr>])"
  by (simp add: addFilter_def filter_present)

text \<open>
  C9. Adding a filter is idempotent: \<open>addFilter\<close> with a pair that is already among the
  active filters returns the palette as it was, so the filters keep their number, their
  contents and their order; and adding the same pair twice gives what adding it once
  gives.
\<close>

theorem addFilter_idempotent:
  "(\<lparr>filter_type = t, filter_value = v\<rparr> \<in> set (activeFilters st) \<longrightarrow> addFilter t v st = st)
   \<and> addFilter t v (addFilter t v st) = addFilter t v st
   \<and> activeFilters (addFilter t v (addFilter t v st)) = activeFilters (addFilter t v st)
   \<and> length (activeFilters (addFilter t v (addFilter t v st)))
       = length (activeFilters (addFilter t v st))"
proof -
  have present: "addFilter t v s = s"
    if "\<lparr>filter_type = t, filter_value = v\<rparr> \<in> set (activeFilters s)" for s
    using that by (simp add: addFilter_def filter_present)
  have "\<lparr>filter_type = t, filter_value = v\<rparr> \<in> set (activeFilters (addFilter t v st))"
    by (simp add: activeFilters_addFilter)
  then have "addFilter t v (addFilter t v st) = addFilter t v st"
    by (rule present)
  with present show ?thesis by simp
qed

theorem addFilter_idempotent_witness:
  "\<lparr>filter_type = Kind, filter_value = ''Pod''\<rparr>
      \<in> set (activeFilters (initial\<lparr>activeFilters := [\<lparr>filter_type = Kind, filter_value = ''Pod''\<rparr>]\<rparr>))
   \<and> addFilter Kind ''Pod'' (initial\<lparr>activeFilters := [\<lparr>filter_type = Kind, filter_value = ''Pod''\<rparr>]\<rparr>)
       = initial\<lparr>activeFilters := [\<lparr>filter_type = Kind, filter_value = ''Pod''\<rparr>]\<rparr>
   \<and> activeFilters (addFilter Kind ''Pod'' (addFilter Kind ''Pod'' initial))
       = [\<lparr>filter_type = Kind, filter_value = ''Pod''\<rparr>]"
  using addFilter_idempotent [of Kind "''Pod''"
      "initial\<lparr>activeFilters := [\<lparr>filter_type = Kind, filter_value = ''Pod''\<rparr>]\<rparr>"]
    addFilter_idempotent [of Kind "''Pod''" initial]
  by (simp add: activeFilters_addFilter initial_def)

lemma applyFilter_eq: "applyFilter f rs = filter (filterTest f) rs"
  by (cases "filter_type f")
     (auto simp: applyFilter_def filterTest_def equalsIgnoreCase_def
           intro!: filter_cong split: option.splits)

lemma applyActiveFilters_eq:
  "applyActiveFilters fs rs = filter (\<lambda>r. \<forall>f\<in>set fs. filterTest f r) rs"
proof (induction fs arbitrary: rs)
  case Nil
  then show ?case by (simp add: applyActiveFilters_def)
next
  case (Cons f fs)
  have "applyActiveFilters (f # fs) rs = applyActiveFilters fs (applyFilter f rs)"
    by (simp add: applyActiveFilters_def)
  also have "\<dots> = filter (\<lambda>r. \<forall>g\<in>set fs. filterTest g r) (filter (filterTest f) rs)"
    by (simp add: Cons.IH applyFilter_eq)
  also have "\<dots> = filter (\<lambda>r. \<forall>g\<in>set (f # fs). filterTest g r) rs"
    by (auto intro: filter_cong)
  finally show ?case .
qed

text \<open>
  C6, as the claim states it, fails: under a node filter the code compares the names
  after lowering both, so the node \<open>Worker1\<close> passes the filter \<open>node:worker1\<close> although
  its name is not the filter's value.
\<close>

theorem node_filter_counterexample:
  "applyActiveFilters [\<lparr>filter_type = Node, filter_value = ''worker1''\<rparr>] [node_w] = [node_w]
   \<and> \<not> spec_filterTest \<lparr>filter_type = Node, filter_value = ''worker1''\<rparr> node_w"
  by (simp add: applyActiveFilters_def applyFilter_def spec_filterTest_def node_w_def string_eval)

text \<open>
  C6, amended. Applying the active filters keeps exactly the resources that pass every
  filter, in their order: a kind filter is a case-insensitive equality test on the kind,
  a namespace filter one on the namespace (a resource without namespace fails it), and a
  node filter holds of the resources whose kind is exactly \<open>Node\<close> and whose name equals
  the value case-insensitively. \<open>performSearch\<close> with an empty query and
  \<open>renderCommandResourceList\<close> list the first 50 of them.
\<close>

theorem filters_keep_conjunction:
  "applyActiveFilters fs rs = filter (\<lambda>r. \<forall>f\<in>set fs. filterTest f r) rs
   \<and> (\<not> isCommandMode st \<and> input_value st = []
      \<longrightarrow> map resource (results (performSearch st))
            = take 50 (filter (\<lambda>r. \<forall>f\<in>set (activeFilters st). filterTest f r) (allResources st)))
   \<and> (activeCommand st = Some cmd \<and> resourceTypes cmd = None \<and> commandSearchQuery st = []
        \<and> (\<exists>r\<in>set (allResources st). \<forall>f\<in>set (activeFilters st). filterTest f r)
      \<longrightarrow> map resource (results (renderCommandResourceList st))
            = take 50 (filter (\<lambda>r. \<forall>f\<in>set (activeFilters st). filterTest f r) (allResources st)))"
proof (intro conjI impI)
  show "applyActiveFilters fs rs = filter (\<lambda>r. \<forall>f\<in>set fs. filterTest f r) rs"
    by (rule applyActiveFilters_eq)
  show "map resource (results (performSearch st))
      = take 50 (filter (\<lambda>r. \<forall>f\<in>set (activeFilters st). filterTest f r) (allResources st))"
    if "\<not> isCommandMode st \<and> input_value st = []"
    using that by (simp add: performSearch_def Let_def applyActiveFilters_eq comp_def)
  show "map resource (results (renderCommandResourceList st))
      = take 50 (filter (\<lambda>r. \<forall>f\<in>set (activeFilters st). filterTest f r) (allResources st))"
    if h: "activeCommand st = Some cmd \<and> resourceTypes cmd = None \<and> commandSearchQuery st = []
        \<and> (\<exists>r\<in>set (allResources st). \<forall>f\<in>set (activeFilters st). filterTest f r)"
  proof -
    from h have "filter (\<lambda>r. \<forall>f\<in>set (activeFilters st). filterTest f r) (allResources st) \<noteq> []"
      by (auto simp: filter_empty_conv)
    with h show ?thesis
      by (simp add: renderCommandResourceList_def Let_def applyActiveFilters_eq comp_def)
  qed
qed

theorem filters_keep_conjunction_witness:
  "applyActiveFilters
      [\<lparr>filter_type = Kind, filter_value = ''pod''\<rparr>, \<lparr>filter_type = Namespace, filter_value = ''NS1''\<rparr>]
      [pod_a, pod_b, service_a, node_w] = [pod_a]
   \<and> applyActiveFilters [\<lparr>filter_type = Node, filter_value = ''worker1''\<rparr>]
        [pod_a, pod_b, service_a, node_w] = [node_w]
   \<and> map resource
        (results (performSearch
           (initial\<lparr>allResources := [pod_a, pod_b, service_a, node_w],
              activeFilters := [\<lparr>filter_type = Kind, filter_value = ''pod''\<rparr>]\<rparr>)))
       = [pod_a, pod_b]
   \<and> map resource
        (results (renderCommandResourceList
           (initial\<lparr>allResources := [pod_a, pod_b, service_a, node_w],
              activeFilters := [\<lparr>filter_type = Namespace, filter_value = ''ns1''\<rparr>],
              activeCommand := Some deleteCommand\<rparr>)))
       = [pod_a, service_a]"
proof -
  let ?rs = "[pod_a, pod_b, service_a, node_w]"
  let ?st1 = "initial\<lparr>allResources := ?rs,
                activeFilters := [\<lparr>filter_type = Kind, filter_value = ''pod''\<rparr>]\<rparr>"
  let ?st2 = "initial\<lparr>allResources := ?rs,
                activeFilters := [\<lparr>filter_type = Namespace, filter_value = ''ns1''\<rparr>],
                activeCommand := Some deleteCommand\<rparr>"
  have ev: "filterTest \<lparr>filter_type = Kind, filter_value = ''pod''\<rparr> pod_a"
    "filterTest \<lparr>filter_type = Kind, filter_value = ''pod''\<rparr> pod_b"
    "\<not> filterTest \<lparr>filter_type = Kind, filter_value = ''pod''\<rparr> service_a"
    "\<not> filterTest \<lparr>filter_type = Kind, filter_value = ''pod''\<rparr> node_w"
    "filterTest \<lparr>filter_type = Namespace, filter_value = ''NS1''\<rparr> pod_a"
    "\<not> filterTest \<lparr>filter_type = Namespace, filter_value = ''NS1''\<rparr> pod_b"
    "filterTest \<lparr>filter_type = Namespace, filter_value = ''ns1''\<rparr> pod_a"
    "\<not> filterTest \<lparr>filter_type = Namespace, filter_value = ''ns1''\<rparr> pod_b"
    "filterTest \<lparr>filter_type = Namespace, filter_value = ''ns1''\<rparr> service_a"
    "\<not> filterTest \<lparr>filter_type = Namespace, filter_value = ''ns1''\<rparr> node_w"
    "\<not> filterTest \<lparr>filter_type = Node, filter_value = ''worker1''\<rparr> pod_a"
    "\<not> filterTest \<lparr>filter_type = Node, filter_value = ''worker1''\<rparr> pod_b"
    "\<not> filterTest \<lparr>filter_type = Node, filter_value = ''worker1''\<rparr> service_a"
    "filterTest \<lparr>filter_type = Node, filter_value = ''worker1''\<rparr> node_w"
    by (simp_all add: filterTest_def equalsIgnoreCase_def pod_a_def pod_b_def service_a_def
          node_w_def string_eval)
  have init: "\<not> isCommandMode initial" "input_value initial = []" "commandSearchQuery initial = []"
    by (simp_all add: initial_def)
  have h1: "\<not> isCommandMode ?st1 \<and> input_value ?st1 = []"
    by (simp add: init)
  have h2: "activeCommand ?st2 = Some deleteCommand \<and> resourceTypes deleteCommand = None
      \<and> commandSearchQuery ?st2 = []
      \<and> (\<exists>r\<in>set (allResources ?st2). \<forall>f\<in>set (activeFilters ?st2). filterTest f r)"
    by (simp add: init deleteCommand_def ev)
  show ?thesis
    using filters_keep_conjunction
        [of "[\<lparr>filter_type = Kind, filter_value = ''pod''\<rparr>,
              \<lparr>filter_type = Namespace, filter_value = ''NS1''\<rparr>]" ?rs ?st1 deleteCommand]
      filters_keep_conjunction
        [of "[\<lparr>filter_type = Node, filter_value = ''worker1''\<rparr>]" ?rs ?st2 deleteCommand]
      h1 h2
    by (simp add: ev)
qed

section \<open>Commands\<close>

lemma effects_emit [simp]: "effects (emit e st) = effects st @ [e]"
  by (simp add: emit_def)

lemma effects_close [simp]: "effects (close st) = effects st"
  by (simp add: close_def)

text \<open>
  C4. \<open>executeCommand\<close> and \<open>executeCommandOnResource\<close> check the command's
  \<open>requiresResource\<close> and, where it has \<open>resourceTypes\<close>, that the kind of the selected
  resource is among them, before they call the command's \<open>execute\<close>: with no resource
  selected, or with one of another kind, the only effect is an alert, and \<open>execute\<close> is not
  called. Conversely a call of \<open>execute\<close> appears in the log only for a command and a
  resource that passed both checks.
\<close>

theorem execute_validates_before_effect:
  "(at_index (filteredCommands st) index = Some command \<and> requiresResource command = Some True
      \<and> at_index (results st) (selectedIndex st) = None
    \<longrightarrow> effects (executeCommand index st) = effects st @ [Alert SelectResourceFirst])
   \<and> (at_index (filteredCommands st) index = Some command \<and> requiresResource command = Some True
      \<and> at_index (results st) (selectedIndex st) = Some sel
      \<and> resourceTypes command = Some types \<and> kind (resource sel) \<notin> set types
    \<longrightarrow> executeCommand index st = emit (Alert (OnlyWorksWith types)) st)
   \<and> (activeCommand st = Some command \<and> resourceTypes command = Some types \<and> kind r \<notin> set types
    \<longrightarrow> executeCommandOnResource r st = emit (Alert (OnlyWorksWith types)) st)
   \<and> (\<forall>a res. Execute a res \<in> set (effects (executeCommand index st))
         \<and> Execute a res \<notin> set (effects st)
       \<longrightarrow> (\<exists>c. at_index (filteredCommands st) index = Some c \<and> a = execute c
              \<and> (if requiresResource c = Some True
                  then \<exists>s. at_index (results st) (selectedIndex st) = Some s
                         \<and> res = Some (resource s)
                         \<and> (\<forall>ts. resourceTypes c = Some ts \<longrightarrow> kind (resource s) \<in> set ts)
                  else res = None)))
   \<and> (\<forall>a res. Execute a res \<in> set (effects (executeCommandOnResource r st))
         \<and> Execute a res \<notin> set (effects st)
       \<longrightarrow> (\<exists>c. activeCommand st = Some c \<and> a = execute c \<and> res = Some r
              \<and> (\<forall>ts. resourceTypes c = Some ts \<longrightarrow> kind r \<in> set ts)))"
proof (intro conjI)
  show "at_index (filteredCommands st) index = Some command \<and> requiresResource command = Some True
      \<and> at_index (results st) (selectedIndex st) = None
    \<longrightarrow> effects (executeCommand index st) = effects st @ [Alert SelectResourceFirst]"
    by (simp add: executeCommand_def)
  show "at_index (filteredCommands st) index = Some command \<and> requiresResource command = Some True
      \<and> at_index (results st) (selectedIndex st) = Some sel
      \<and> resourceTypes command = Some types \<and> kind (resource sel) \<notin> set types
    \<longrightarrow> executeCommand index st = emit (Alert (OnlyWorksWith types)) st"
    by (simp add: executeCommand_def)
  show "activeCommand st = Some command \<and> resourceTypes command = Some types \<and> kind r \<notin> set types
    \<longrightarrow> executeCommandOnResource r st = emit (Alert (OnlyWorksWith types)) st"
    by (simp add: executeCommandOnResource_def)
  show "\<forall>a res. Execute a res \<in> set (effects (executeCommand index st))
         \<and> Execute a res \<notin> set (effects st)
       \<longrightarrow> (\<exists>c. at_index (filteredCommands st) index = Some c \<and> a = execute c
              \<and> (if requiresResource c = Some True
                  then \<exists>s. at_index (results st) (selectedIndex st) = Some s
                         \<and> res = Some (resource s)
                         \<and> (\<forall>ts. resourceTypes c = Some ts \<longrightarrow> kind (resource s) \<in> set ts)
                  else res = None))"
    by (auto simp: executeCommand_def split: option.splits if_splits)
  show "\<forall>a res. Execute a res \<in> set (effects (executeCommandOnResource r st))
         \<and> Execute a res \<notin> set (effects st)
       \<longrightarrow> (\<exists>c. activeCommand st = Some c \<and> a = execute c \<and> res = Some r
              \<and> (\<forall>ts. resourceTypes c = Some ts \<longrightarrow> kind r \<in> set ts))"
    by (auto simp: executeCommandOnResource_def split: option.splits if_splits)
qed

lemma filteredCommands_commandList:
  "filteredCommands (commandList\<lparr>results := rs, activeCommand := c\<rparr>) = [logsCommand]"
  by (simp add: filteredCommands_def commandList_def initial_def logsCommand_def
        describeCommand_def deleteCommand_def refreshCommand_def string_eval)

lemma commandList_fields:
  "selectedIndex (commandList\<lparr>results := rs, activeCommand := c\<rparr>) = 0"
  "effects (commandList\<lparr>results := rs, activeCommand := c\<rparr>) = []"
  by (simp_all add: commandList_def initial_def)

theorem execute_validates_before_effect_witness:
  "effects (executeCommand 0 (commandList\<lparr>results := [], activeCommand := None\<rparr>))
     = [Alert SelectResourceFirst]
   \<and> effects (executeCommand 0 (commandList\<lparr>results := [hit service_a], activeCommand := None\<rparr>))
     = [Alert (OnlyWorksWith [''Pod''])]
   \<and> effects (executeCommandOnResource service_a
        (commandList\<lparr>results := [], activeCommand := Some logsCommand\<rparr>))
     = [Alert (OnlyWorksWith [''Pod''])]
   \<and> effects (executeCommand 0 (commandList\<lparr>results := [hit pod_a], activeCommand := None\<rparr>))
     = [Execute ViewLogs (Some pod_a)]
   \<and> effects (executeCommandOnResource pod_a
        (commandList\<lparr>results := [], activeCommand := Some logsCommand\<rparr>))
     = [Execute ViewLogs (Some pod_a)]"
proof -
  let ?none = "commandList\<lparr>results := [], activeCommand := None\<rparr>"
  let ?svc = "commandList\<lparr>results := [hit service_a], activeCommand := None\<rparr>"
  let ?act = "commandList\<lparr>results := [], activeCommand := Some logsCommand\<rparr>"
  have logs: "requiresResource logsCommand = Some True" "resourceTypes logsCommand = Some [''Pod'']"
    "execute logsCommand = ViewLogs"
    by (simp_all add: logsCommand_def)
  have kinds: "kind (resource (hit service_a)) \<notin> set [''Pod'']" "kind service_a \<notin> set [''Pod'']"
    "kind (resource (hit pod_a)) \<in> set [''Pod'']" "kind pod_a \<in> set [''Pod'']"
    "resource (hit pod_a) = pod_a"
    by (simp_all add: hit_def service_a_def pod_a_def)
  have h1: "at_index (filteredCommands ?none) 0 = Some logsCommand
      \<and> requiresResource logsCommand = Some True
      \<and> at_index (results ?none) (selectedIndex ?none) = None"
    by (simp add: filteredCommands_commandList commandList_fields at_index_def logs)
  have h2: "at_index (filteredCommands ?svc) 0 = Some logsCommand
      \<and> requiresResource logsCommand = Some True
      \<and> at_index (results ?svc) (selectedIndex ?svc) = Some (hit service_a)
      \<and> resourceTypes logsCommand = Some [''Pod''] \<and> kind (resource (hit service_a)) \<notin> set [''Pod'']"
    using kinds(1) by (simp add: filteredCommands_commandList commandList_fields at_index_def logs)
  have h3: "activeCommand ?act = Some logsCommand \<and> resourceTypes logsCommand = Some [''Pod'']
      \<and> kind service_a \<notin> set [''Pod'']"
    using kinds(2) by (simp add: logs)
  have pos: "effects (executeCommand 0 (commandList\<lparr>results := [hit pod_a], activeCommand := None\<rparr>))
       = [Execute ViewLogs (Some pod_a)]"
    "effects (executeCommandOnResource pod_a ?act) = [Execute ViewLogs (Some pod_a)]"
    using kinds(3,4)
    by (simp_all add: executeCommand_def executeCommandOnResource_def filteredCommands_commandList
          commandList_fields at_index_def logs kinds(5))
  show ?thesis
    using execute_validates_before_effect [of ?none 0 logsCommand] h1
      execute_validates_before_effect [of ?svc 0 logsCommand "hit service_a" "[''Pod'']"] h2
      execute_validates_before_effect [of ?act _ logsCommand _ "[''Pod'']" service_a] h3
    by (simp add: commandList_fields pos)
qed

text \<open>
  C5. The delete command asks for confirmation before anything else, and sends no
  delete request when the answer is no: a declined confirmation leaves the palette as it
  was but for the prompt in the log, with nothing to wait for. A delete request is in the
  log after \<open>delete_execute\<close> only if it was there before, or if the answer was yes; it
  then follows the prompt for the same resource.
\<close>

theorem delete_needs_confirmation:
  "(\<not> confirmed \<longrightarrow>
      snd (delete_execute res confirmed st)
        = (case res of None \<Rightarrow> st | Some r \<Rightarrow> emit (ConfirmPrompt (resourceName r)) st)
      \<and> \<not> fst (delete_execute res confirmed st))
   \<and> (\<forall>frame r. Requested frame (DeleteResource r) \<in> set (effects (snd (delete_execute res confirmed st)))
         \<longrightarrow> Requested frame (DeleteResource r) \<in> set (effects st)
             \<or> (confirmed \<and> res = Some r \<and> activeIframeSource st = Some frame
                 \<and> effects (snd (delete_execute res confirmed st))
                     = effects st @ [ConfirmPrompt (resourceName r),
                                     Requested frame (DeleteResource r)]))"
  by (auto simp: delete_execute_def Let_def emit_def split: option.splits)

theorem delete_needs_confirmation_witness:
  "effects (snd (delete_execute (Some pod_a) False (initial\<lparr>activeIframeSource := Some 0\<rparr>)))
     = [ConfirmPrompt ''Pod/ns1/a'']
   \<and> Requested 0 (DeleteResource pod_a)
       \<in> set (effects (snd (delete_execute (Some pod_a) True (initial\<lparr>activeIframeSource := Some 0\<rparr>))))
   \<and> effects (snd (delete_execute (Some pod_a) True (initial\<lparr>activeIframeSource := Some 0\<rparr>)))
       = [ConfirmPrompt ''Pod/ns1/a'', Requested 0 (DeleteResource pod_a)]"
proof -
  let ?st = "initial\<lparr>activeIframeSource := Some 0\<rparr>"
  have e: "effects ?st = []"
    by (simp add: initial_def)
  have in_log: "Requested 0 (DeleteResource pod_a)
      \<in> set (effects (snd (delete_execute (Some pod_a) True ?st)))"
    by (simp add: delete_execute_def Let_def emit_def)
  have name: "resourceName pod_a = ''Pod/ns1/a''"
    by (simp add: resourceName_def pod_a_def truthy_def)
  have declined: "effects (snd (delete_execute (Some pod_a) False ?st))
      = [ConfirmPrompt ''Pod/ns1/a'']"
    using delete_needs_confirmation [of False "Some pod_a" ?st] by (simp add: e name)
  have confirmed: "effects (snd (delete_execute (Some pod_a) True ?st))
      = [ConfirmPrompt ''Pod/ns1/a'', Requested 0 (DeleteResource pod_a)]"
    using delete_needs_confirmation
        [of True "Some pod_a" ?st, THEN conjunct2, THEN spec, THEN spec, THEN mp, OF in_log]
    by (simp add: e name)
  from declined in_log confirmed show ?thesis by simp
qed

section \<open>Ranking\<close>

lemma tierOf_positive: "tierOf d n k ns t = Some x \<Longrightarrow> t \<noteq> [] \<Longrightarrow> x \<ge> 2"
  by (auto simp: tierOf_def split: if_splits)

lemma scoreTerms_eq:
  "\<forall>t\<in>set terms. t \<noteq> [] \<Longrightarrow>
   scoreTerms d n k ns terms acc
   = (if \<forall>t\<in>set terms. tierOf d n k ns t \<noteq> None
      then Some (acc + sum_list (map (\<lambda>t. the (tierOf d n k ns t)) terms)) else None)"
proof (induction terms arbitrary: acc)
  case Nil
  then show ?case by simp
next
  case (Cons t terms)
  then have t: "t \<noteq> []"
    and IH: "\<And>acc. scoreTerms d n k ns terms acc
       = (if \<forall>t\<in>set terms. tierOf d n k ns t \<noteq> None
          then Some (acc + sum_list (map (\<lambda>t. the (tierOf d n k ns t)) terms)) else None)"
    by simp_all
  have head: "tierOf d n k ns t \<noteq> None \<Longrightarrow>
      scoreTerms d n k ns (t # terms) acc
        = scoreTerms d n k ns terms (acc + the (tierOf d n k ns t))"
    using t by (auto simp: tierOf_def fuzzyMatch_eq split: if_splits)
  have none: "tierOf d n k ns t = None \<Longrightarrow> scoreTerms d n k ns (t # terms) acc = None"
    using t by (auto simp: tierOf_def fuzzyMatch_eq split: if_splits)
  show ?case
  proof (cases "tierOf d n k ns t")
    case None
    with none show ?thesis by simp
  next
    case (Some x)
    with head have "scoreTerms d n k ns (t # terms) acc = scoreTerms d n k ns terms (acc + x)"
      by simp
    with Some show ?thesis by (simp add: IH add.assoc)
  qed
qed

lemma scoreTerms_resource:
  assumes "\<forall>t\<in>set terms. t \<noteq> []"
  shows "scoreTerms (toLowerCase (getDisplayText r)) (toLowerCase (name r)) (toLowerCase (kind r))
       (case namespace r of None \<Rightarrow> [] | Some ns \<Rightarrow> toLowerCase ns) terms 0
     = (if matchesAll terms r then Some (matchScore (ranked terms r)) else None)"
  unfolding scoreTerms_eq [OF assms] matchesAll_def ranked_def tierScore_def list_all_iff
  by simp

lemma scoreResource_eq:
  assumes "\<forall>t\<in>set terms. t \<noteq> []"
  shows "scoreResource terms r
     = (if matchesAll terms r then ranked terms r
        else \<lparr>resource = r, displayText = getDisplayText r, matchScore = 0\<rparr>)"
  unfolding scoreResource_def Let_def scoreTerms_resource [OF assms]
  by (simp add: ranked_def)

lemma ranked_positive:
  assumes "terms \<noteq> []" "\<forall>t\<in>set terms. t \<noteq> []" "matchesAll terms r"
  shows "matchScore (ranked terms r) > 0"
proof -
  have "sum_list (map (\<lambda>t. the (tierScore r t)) ts) \<ge> 2 * of_nat (length ts)"
    if "\<forall>t\<in>set ts. t \<noteq> [] \<and> tierScore r t \<noteq> None" for ts
    using that
  proof (induction ts)
    case Nil
    then show ?case by simp
  next
    case (Cons t ts)
    then obtain x where "tierScore r t = Some x" "t \<noteq> []" by auto
    with tierOf_positive have "the (tierScore r t) \<ge> 2"
      by (fastforce simp: tierScore_def)
    with Cons show ?case by (simp add: algebra_simps)
  qed
  from this [of terms] assms
  have "sum_list (map (\<lambda>t. the (tierScore r t)) terms) \<ge> 2 * of_nat (length terms)"
    by (simp add: matchesAll_def list_all_iff)
  moreover from assms(1) have "(2::rat) * of_nat (length terms) > 0" by simp
  ultimately have "sum_list (map (\<lambda>t. the (tierScore r t)) terms) > 0" by linarith
  then show ?thesis by (simp add: ranked_def)
qed

lemma searchTermsOf_nonempty: "\<forall>t\<in>set (searchTermsOf q). t \<noteq> []"
  by (simp add: searchTermsOf_def)

lemma scored_filter:
  assumes "terms \<noteq> []" "\<forall>t\<in>set terms. t \<noteq> []"
  shows "filter (\<lambda>result. matchScore result > 0) (map (scoreResource terms) rs)
     = map (ranked terms) (filter (matchesAll terms) rs)"
proof (induction rs)
  case Nil
  then show ?case by simp
next
  case (Cons r rs)
  show ?case
  proof (cases "matchesAll terms r")
    case True
    with assms have "matchScore (ranked terms r) > 0" by (rule ranked_positive)
    with True Cons show ?thesis by (simp add: scoreResource_eq [OF assms(2)])
  next
    case False
    with Cons show ?thesis by (simp add: scoreResource_eq [OF assms(2)])
  qed
qed

lemma searchTermsOf_Nil: "searchTermsOf [] = []"
  by (simp add: searchTermsOf_def split_ws_def toLowerCase_def)

lemma results_performSearch:
  assumes "\<not> isCommandMode st" "searchTermsOf (input_value st) \<noteq> []"
  shows "results (performSearch st)
     = take 50 (sort_key (\<lambda>result. - matchScore result)
         (map (ranked (searchTermsOf (input_value st)))
            (filter (matchesAll (searchTermsOf (input_value st)))
               (applyActiveFilters (activeFilters st) (allResources st)))))"
proof -
  from assms(2) have "input_value st \<noteq> []"
    using searchTermsOf_Nil by auto
  with assms show ?thesis
    by (simp add: performSearch_def Let_def scored_filter searchTermsOf_nonempty)
qed

lemma split_ws_from_no_space:
  "\<not> list_ex isSpace acc \<Longrightarrow> list_all (\<lambda>p. \<not> list_ex isSpace p) (split_ws_from acc s)"
proof (induction acc s rule: split_ws_from.induct)
  case (1 acc)
  then show ?case by (simp add: list_ex_iff)
next
  case (2 acc c cs)
  show ?case
  proof (cases "isSpace c")
    case True
    with 2 show ?thesis by (simp add: list_ex_iff)
  next
    case False
    with 2 show ?thesis by (simp add: list_ex_iff)
  qed
qed

lemma searchTermsOf_no_space:
  "list_all (\<lambda>t. t \<noteq> [] \<and> \<not> list_ex isSpace t) (searchTermsOf q)"
  using split_ws_from_no_space [of "[]" "toLowerCase q"]
  by (simp add: searchTermsOf_def split_ws_def list_all_iff)

text \<open>
  C2, as the claim states it, fails twice. The results are cut to 50: of 51 pods that all
  match the query \<open>pod\<close> on the first tier, the last is not among them. And a query of
  white space only is not empty but has no term, so that every item matches every term,
  and still no item is listed.
\<close>

lemma pod_tierScore: "kind r = ''Pod'' \<Longrightarrow> tierScore r ''pod'' = Some 10"
  by (simp add: tierScore_def tierOf_def getDisplayText_def string_eval)

lemma searchTermsOf_pod: "searchTermsOf ''pod'' = [''pod'']"
  by (simp add: searchTermsOf_def string_eval)

lemma pods_results:
  assumes "\<forall>r\<in>set (allResources st). kind r = ''Pod''" "\<not> isCommandMode st"
    "input_value st = ''pod''" "activeFilters st = []"
  shows "map resource (results (performSearch st)) = take 50 (allResources st)"
proof -
  let ?rs = "allResources st"
  have all: "filter (matchesAll [''pod'']) ?rs = ?rs"
    using assms(1) by (simp add: matchesAll_def pod_tierScore)
  have "map (\<lambda>result. - matchScore result) (map (ranked [''pod'']) ?rs)
      = replicate (length ?rs) (- 10)"
    using assms(1) by (simp add: ranked_def pod_tierScore map_replicate_const [symmetric] cong: map_cong)
  then have "sorted (map (\<lambda>result. - matchScore result) (map (ranked [''pod'']) ?rs))"
    by (simp only: sorted_replicate)
  then have "sort_key (\<lambda>result. - matchScore result) (map (ranked [''pod'']) ?rs)
      = map (ranked [''pod'']) ?rs"
    by (rule sort_key_id_if_sorted)
  with all assms(2-4) show ?thesis
    by (simp add: results_performSearch searchTermsOf_pod applyActiveFilters_def take_map comp_def
          ranked_def)
qed

theorem ranking_counterexample:
  "matchesAll (searchTermsOf ''pod'') (last many_pods)
   \<and> last many_pods \<in> set many_pods
   \<and> last many_pods
       \<notin> set (map resource
                (results (performSearch (initial\<lparr>allResources := many_pods, input_value := ''pod''\<rparr>))))
   \<and> searchTermsOf '' '' = []
   \<and> results (performSearch (initial\<lparr>allResources := [pod_a], input_value := '' ''\<rparr>)) = []"
proof -
  let ?f = "\<lambda>i. \<lparr>kind = ''Pod'', name = replicate (Suc i) (CHR ''x''), namespace = Some ''ns1'',
               uid = [], apiVersion = ''v1''\<rparr>"
  let ?st = "initial\<lparr>allResources := many_pods, input_value := ''pod''\<rparr>"
  have "[0..<51] = [0..<50] @ [50]"
    by (simp add: upt_rec_numeral [symmetric] upt_Suc_append [symmetric] del: upt_Suc)
  then have pods_split: "many_pods = map ?f [0..<50] @ [?f 50]"
    by (simp add: many_pods_def del: upt_Suc replicate.simps)
  have last: "last many_pods = ?f 50"
    by (subst pods_split) (rule last_snoc)
  have pods: "\<forall>r\<in>set (allResources ?st). kind r = ''Pod''"
    by (auto simp: many_pods_def)
  have "map resource (results (performSearch ?st)) = take 50 (allResources ?st)"
    using pods by (rule pods_results) (simp_all add: initial_def)
  also have "\<dots> = map ?f [0..<50]"
    by (simp add: pods_split del: upt_Suc replicate.simps)
  finally have res: "map resource (results (performSearch ?st)) = map ?f [0..<50]" .
  have "?f 50 \<notin> set (map ?f [0..<50])"
  proof
    assume "?f 50 \<in> set (map ?f [0..<50])"
    then obtain i where "i < 50" "replicate (Suc i) (CHR ''x'') = replicate (Suc 50) (CHR ''x'')"
      by auto
    then have "length (replicate (Suc i) (CHR ''x'')) = length (replicate (Suc 50) (CHR ''x''))"
      by simp
    with \<open>i < 50\<close> show False by simp
  qed
  with last res have out: "last many_pods
       \<notin> set (map resource (results (performSearch ?st)))"
    by simp
  have m: "matchesAll (searchTermsOf ''pod'') (last many_pods)"
    by (simp add: last searchTermsOf_pod matchesAll_def pod_tierScore)
  have mem: "last many_pods \<in> set many_pods"
    by (rule last_in_set) (simp add: many_pods_def)
  have blank: "searchTermsOf '' '' = []"
    by (simp add: searchTermsOf_def string_eval)
  have none: "results (performSearch (initial\<lparr>allResources := [pod_a], input_value := '' ''\<rparr>)) = []"
    by (simp add: performSearch_def initial_def blank Let_def scoreResource_def
          applyActiveFilters_def)
  from m mem out blank none show ?thesis by simp
qed

text \<open>
  C2, amended. Outside command mode, for a query with at least one term: the terms are
  the runs of the lowered query between white space; an item that passes the active
  filters is a candidate if and only if every term matches it on one of the tiers, read
  on the lowered texts (display text 10, name 8, kind 6, namespace 5, else the term a
  subsequence of the display text, \<open>2 \<times> n / n\<close>), its score the sum of the scores of the
  terms; the results are the first 50 candidates in descending order of score, ties in
  their original order. With at most 50 candidates the results list exactly them.
\<close>

theorem ranking_by_tiers:
  "\<not> isCommandMode st \<and> searchTermsOf (input_value st) \<noteq> [] \<longrightarrow>
     results (performSearch st)
       = take 50 (sort_key (\<lambda>result. - matchScore result)
           (map (ranked (searchTermsOf (input_value st)))
              (filter (matchesAll (searchTermsOf (input_value st)))
                 (applyActiveFilters (activeFilters st) (allResources st)))))
     \<and> list_all (\<lambda>t. t \<noteq> [] \<and> \<not> list_ex isSpace t) (searchTermsOf (input_value st))
     \<and> (length (filter (matchesAll (searchTermsOf (input_value st)))
                  (applyActiveFilters (activeFilters st) (allResources st))) \<le> 50
        \<longrightarrow> set (map resource (results (performSearch st)))
              = {r \<in> set (applyActiveFilters (activeFilters st) (allResources st)).
                   matchesAll (searchTermsOf (input_value st)) r})"
proof (intro impI conjI)
  assume h: "\<not> isCommandMode st \<and> searchTermsOf (input_value st) \<noteq> []"
  let ?terms = "searchTermsOf (input_value st)"
  let ?cands = "filter (matchesAll ?terms) (applyActiveFilters (activeFilters st) (allResources st))"
  show eq: "results (performSearch st)
       = take 50 (sort_key (\<lambda>result. - matchScore result) (map (ranked ?terms) ?cands))"
    using h by (simp add: results_performSearch)
  show "list_all (\<lambda>t. t \<noteq> [] \<and> \<not> list_ex isSpace t) ?terms"
    by (rule searchTermsOf_no_space)
  assume "length ?cands \<le> 50"
  then have "results (performSearch st)
      = sort_key (\<lambda>result. - matchScore result) (map (ranked ?terms) ?cands)"
    by (simp add: eq)
  then have "set (map resource (results (performSearch st))) = set ?cands"
    by (simp add: ranked_def image_image)
  then show "set (map resource (results (performSearch st)))
      = {r \<in> set (applyActiveFilters (activeFilters st) (allResources st)). matchesAll ?terms r}"
    by simp
qed

theorem ranking_by_tiers_witness:
  "searchTermsOf ''a'' = [''a'']
   \<and> results (performSearch (initial\<lparr>allResources := [pod_a, pod_b, service_a], input_value := ''a''\<rparr>))
       = [\<lparr>resource = pod_a, displayText = ''Pod/ns1/a'', matchScore = 10\<rparr>,
          \<lparr>resource = service_a, displayText = ''Service/ns1/a'', matchScore = 10\<rparr>]
   \<and> results (performSearch
        (initial\<lparr>allResources := [pod_a, pod_b, service_a], input_value := ''a'',
           activeFilters := [\<lparr>filter_type = Kind, filter_value = ''Pod''\<rparr>]\<rparr>))
       = [\<lparr>resource = pod_a, displayText = ''Pod/ns1/a'', matchScore = 10\<rparr>]
   \<and> results (performSearch
        (initial\<lparr>allResources := [pod_a, pod_b, service_a], input_value := ''Srv  ns1''\<rparr>))
       = [\<lparr>resource = service_a, displayText = ''Service/ns1/a'', matchScore = 12\<rparr>]"
proof -
  let ?rs = "[pod_a, pod_b, service_a]"
  let ?st1 = "initial\<lparr>allResources := ?rs, input_value := ''a''\<rparr>"
  let ?st2 = "initial\<lparr>allResources := ?rs, input_value := ''a'',
                activeFilters := [\<lparr>filter_type = Kind, filter_value = ''Pod''\<rparr>]\<rparr>"
  let ?st3 = "initial\<lparr>allResources := ?rs, input_value := ''Srv  ns1''\<rparr>"
  have terms: "searchTermsOf ''a'' = [''a'']" "searchTermsOf ''Srv  ns1'' = [''srv'', ''ns1'']"
    by (simp_all add: searchTermsOf_def string_eval)
  have init: "\<not> isCommandMode initial" "activeFilters initial = []"
    by (simp_all add: initial_def)
  have filt: "applyActiveFilters [] ?rs = ?rs"
    "applyActiveFilters [\<lparr>filter_type = Kind, filter_value = ''Pod''\<rparr>] ?rs = [pod_a, pod_b]"
    by (simp_all add: applyActiveFilters_def applyFilter_def pod_a_def pod_b_def service_a_def
          string_eval)
  have disp: "getDisplayText pod_a = ''Pod/ns1/a''" "getDisplayText pod_b = ''Pod/ns2/b''"
    "getDisplayText service_a = ''Service/ns1/a''"
    by (simp_all add: getDisplayText_def truthy_def pod_a_def pod_b_def service_a_def)
  have tiers: "tierScore pod_a ''a'' = Some 10" "tierScore pod_b ''a'' = None"
    "tierScore service_a ''a'' = Some 10"
    "tierScore pod_a ''srv'' = None" "tierScore pod_b ''srv'' = None"
    "tierScore service_a ''srv'' = Some 2" "tierScore service_a ''ns1'' = Some 10"
    unfolding tierScore_def tierOf_def disp
    by (simp_all add: string_eval pod_a_def pod_b_def service_a_def subseq_Cons2_iff
          subseq_Nil_iff)
  have cands: "filter (matchesAll [''a'']) ?rs = [pod_a, service_a]"
    "filter (matchesAll [''a'']) [pod_a, pod_b] = [pod_a]"
    "filter (matchesAll [''srv'', ''ns1'']) ?rs = [service_a]"
    by (simp_all add: matchesAll_def tiers)
  have rk: "ranked [''a''] pod_a = \<lparr>resource = pod_a, displayText = ''Pod/ns1/a'', matchScore = 10\<rparr>"
    "ranked [''a''] service_a
       = \<lparr>resource = service_a, displayText = ''Service/ns1/a'', matchScore = 10\<rparr>"
    "ranked [''srv'', ''ns1''] service_a
       = \<lparr>resource = service_a, displayText = ''Service/ns1/a'', matchScore = 12\<rparr>"
    by (simp_all add: ranked_def tiers disp)
  have f1: "input_value ?st1 = ''a''" "activeFilters ?st1 = []" "allResources ?st1 = ?rs"
    "\<not> isCommandMode ?st1"
    and f2: "input_value ?st2 = ''a''"
    "activeFilters ?st2 = [\<lparr>filter_type = Kind, filter_value = ''Pod''\<rparr>]"
    "allResources ?st2 = ?rs" "\<not> isCommandMode ?st2"
    and f3: "input_value ?st3 = ''Srv  ns1''" "activeFilters ?st3 = []" "allResources ?st3 = ?rs"
    "\<not> isCommandMode ?st3"
    by (simp_all add: init)
  have h1: "\<not> isCommandMode ?st1 \<and> searchTermsOf (input_value ?st1) \<noteq> []"
    and h2: "\<not> isCommandMode ?st2 \<and> searchTermsOf (input_value ?st2) \<noteq> []"
    and h3: "\<not> isCommandMode ?st3 \<and> searchTermsOf (input_value ?st3) \<noteq> []"
    by (simp_all add: init terms)
  have "results (performSearch ?st1)
      = take 50 (sort_key (\<lambda>result. - matchScore result)
          [\<lparr>resource = pod_a, displayText = ''Pod/ns1/a'', matchScore = 10\<rparr>,
           \<lparr>resource = service_a, displayText = ''Service/ns1/a'', matchScore = 10\<rparr>])"
    using ranking_by_tiers [of ?st1, THEN mp, OF h1, THEN conjunct1]
    unfolding f1 terms filt cands list.map rk .
  then have r1: "results (performSearch ?st1)
      = [\<lparr>resource = pod_a, displayText = ''Pod/ns1/a'', matchScore = 10\<rparr>,
         \<lparr>resource = service_a, displayText = ''Service/ns1/a'', matchScore = 10\<rparr>]"
    by simp
  have "results (performSearch ?st2)
      = take 50 (sort_key (\<lambda>result. - matchScore result)
          [\<lparr>resource = pod_a, displayText = ''Pod/ns1/a'', matchScore = 10\<rparr>])"
    using ranking_by_tiers [of ?st2, THEN mp, OF h2, THEN conjunct1]
    unfolding f2 terms filt cands list.map rk .
  then have r2: "results (performSearch ?st2)
      = [\<lparr>resource = pod_a, displayText = ''Pod/ns1/a'', matchScore = 10\<rparr>]"
    by simp
  have "results (performSearch ?st3)
      = take 50 (sort_key (\<lambda>result. - matchScore result)
          [\<lparr>resource = service_a, displayText = ''Service/ns1/a'', matchScore = 12\<rparr>])"
    using ranking_by_tiers [of ?st3, THEN mp, OF h3, THEN conjunct1]
    unfolding f3 terms filt cands list.map rk .
  then have r3: "results (performSearch ?st3)
      = [\<lparr>resource = service_a, displayText = ''Service/ns1/a'', matchScore = 12\<rparr>]"
    by simp
  from terms(1) r1 r2 r3 show ?thesis by simp
qed

section \<open>The cache and a failed refresh\<close>

lemma filterMatch_Nil: "filterMatch [] = None"
  by (simp add: filterMatch_def toLowerCase_def)

lemma updateAutocompleteHint_empty:
  "input_value st = [] \<Longrightarrow>
   updateAutocompleteHint st
     = st\<lparr>isCommandMode := False, activeCommand := None, commandSearchQuery := [],
          autocompleteSuggestions := [], autocompleteSelectedIndex := -1,
          autocompleteFilterType := None\<rparr>"
  by (simp add: updateAutocompleteHint_def startsWith_def plainHint_def filterMatch_Nil)

lemma refresh_rejected:
  "allResources (loadResourcesViaIPC_resume (Rejected e) st) = []
   \<and> resourceCache (loadResourcesViaIPC_resume (Rejected e) st) = resourceCache st
   \<and> searchDebounceTimer (loadResourcesViaIPC_resume (Rejected e) st)"
  by (simp add: loadResourcesViaIPC_resume_def loadResourcesViaIPC_finally_def handleInput_def)

lemma opened:
  "open_palette [] cached
     = (False,
        cached\<lparr>isOpen := True,
          availableCommands := [logsCommand, describeCommand, deleteCommand, refreshCommand],
          allResources := [pod_a, pod_b], resultsList := EmptyView NoResourcesFound,
          effects := [Requested 0 GetResources]\<rparr>)"
  by (simp add: open_palette_def initializeCommands_def loadResources_def hasCache_def truthy_def
        loadResourcesViaIPC_def renderResults_def emit_def cached_def initial_def Let_def)

lemma typed:
  "searchDebounceFired (handleInput (snd (open_palette [] cached)))
     = cached\<lparr>isOpen := True,
          availableCommands := [logsCommand, describeCommand, deleteCommand, refreshCommand],
          allResources := [pod_a, pod_b], 
          effects := [Requested 0 GetResources],
          results := [hit pod_a, hit pod_b],
          resultsList := ResultsView [hit pod_a, hit pod_b] 0\<rparr>"
  unfolding opened
  by (simp add: handleInput_def updateAutocompleteHint_empty searchDebounceFired_def
        performSearch_def applyActiveFilters_def renderResults_def hit_def cached_def initial_def Let_def)

text \<open>
  C1 does not hold of the code. With a cached snapshot the palette opens on the cache and
  starts a refresh in the background; when that refresh is rejected, the \<open>catch\<close> block of
  \<open>loadResourcesViaIPC\<close>, written for the first load, empties \<open>allResources\<close> all the
  same. The cache entry is left as it was, as the claim says, but the list that showed
  the cached pods is empty after the next search, under the text for resources that are
  still loading.
\<close>

theorem refresh_failure_empties_list:
  "hasCache cached
   \<and> results (searchDebounceFired (handleInput (snd (open_palette [] cached))))
       = [hit pod_a, hit pod_b]
   \<and> resourceCache
        (searchDebounceFired
          (loadResourcesViaIPC_resume (Rejected ''Resource request timeout'')
            (searchDebounceFired (handleInput (snd (open_palette [] cached)))))) ''c1''
       = Some [pod_a, pod_b]
   \<and> allResources
        (searchDebounceFired
          (loadResourcesViaIPC_resume (Rejected ''Resource request timeout'')
            (searchDebounceFired (handleInput (snd (open_palette [] cached)))))) = []
   \<and> resultsList
        (searchDebounceFired
          (loadResourcesViaIPC_resume (Rejected ''Resource request timeout'')
            (searchDebounceFired (handleInput (snd (open_palette [] cached))))))
       = EmptyView LoadingResources"
  unfolding typed
  by (simp add: hasCache_def truthy_def loadResourcesViaIPC_resume_def
        loadResourcesViaIPC_finally_def handleInput_def updateAutocompleteHint_empty
        searchDebounceFired_def performSearch_def applyActiveFilters_def renderResults_def
        cached_def initial_def Let_def)

theorem refresh_failure_empties_list_witness:
  "resourceCache
     (searchDebounceFired
       (loadResourcesViaIPC_resume (Rejected ''Resource request timeout'')
         (searchDebounceFired (handleInput (snd (open_palette [] cached)))))) ''c1''
     = Some [pod_a, pod_b]
   \<and> allResources
        (searchDebounceFired
          (loadResourcesViaIPC_resume (Rejected ''Resource request timeout'')
            (searchDebounceFired (handleInput (snd (open_palette [] cached))))))
       \<noteq> [pod_a, pod_b]"
  using refresh_failure_empties_list by simp

section \<open>Escape\<close>

lemma handleKeyDown_Escape_command:
  "isCommandMode st \<Longrightarrow>
   handleKeyDown Escape st
     = st\<lparr>input_value := [], isCommandMode := False, activeCommand := None,
          commandSearchQuery := [], autocompleteSuggestions := [],
          autocompleteSelectedIndex := -1, autocompleteFilterType := None,
          searchDebounceTimer := True\<rparr>"
  by (simp add: handleKeyDown_def handleKeyDown_commandResource_def handleInput_def
        updateAutocompleteHint_empty)

lemma handleKeyDown_Escape_plain:
  "\<not> isCommandMode st \<Longrightarrow> handleKeyDown Escape st = close st"
  by (simp add: handleKeyDown_def handleKeyDown_suggest_def handleKeyDown_normal_def)

text \<open>
  C8, amended. In command mode, whether the command list, the attribute suggestions of a
  command or the resources of a command are shown, Escape clears the whole text buffer
  and leaves command mode, with no active command and no suggestions; the palette stays
  open, its filters and its log as they were. Outside command mode Escape closes the
  palette, also while attribute suggestions are shown.
\<close>

theorem escape_unwinds_or_closes:
  "(isCommandMode st \<longrightarrow>
      isOpen (handleKeyDown Escape st) = isOpen st
      \<and> input_value (handleKeyDown Escape st) = []
      \<and> \<not> isCommandMode (handleKeyDown Escape st)
      \<and> activeCommand (handleKeyDown Escape st) = None
      \<and> commandSearchQuery (handleKeyDown Escape st) = []
      \<and> autocompleteFilterType (handleKeyDown Escape st) = None
      \<and> autocompleteSuggestions (handleKeyDown Escape st) = []
      \<and> activeFilters (handleKeyDown Escape st) = activeFilters st
      \<and> effects (handleKeyDown Escape st) = effects st)
   \<and> (\<not> isCommandMode st \<longrightarrow>
        handleKeyDown Escape st = close st \<and> \<not> isOpen (handleKeyDown Escape st))"
  by (simp add: handleKeyDown_Escape_command handleKeyDown_Escape_plain close_def)

theorem escape_unwinds_or_closes_witness:
  "isCommandMode commandList \<and> isOpen commandList
   \<and> isOpen (handleKeyDown Escape commandList)
   \<and> input_value (handleKeyDown Escape commandList) = []
   \<and> isOpen (handleKeyDown Escape
         (commandList\<lparr>autocompleteFilterType := Some Kind, autocompleteSuggestions := [''Pod'']\<rparr>))
   \<and> isOpen (handleKeyDown Escape
         (commandList\<lparr>activeCommand := Some logsCommand, commandSearchQuery := ''ng''\<rparr>))
   \<and> \<not> isCommandMode (initial\<lparr>isOpen := True\<rparr>)
   \<and> \<not> isOpen (handleKeyDown Escape (initial\<lparr>isOpen := True\<rparr>))"
proof -
  have c: "isCommandMode commandList" "isOpen commandList"
    by (simp_all add: commandList_def initial_def)
  have i: "\<not> isCommandMode (initial\<lparr>isOpen := True\<rparr>)"
    by (simp add: initial_def)
  show ?thesis
    using escape_unwinds_or_closes [of commandList]
      escape_unwinds_or_closes
        [of "commandList\<lparr>autocompleteFilterType := Some Kind, autocompleteSuggestions := [''Pod'']\<rparr>"]
      escape_unwinds_or_closes
        [of "commandList\<lparr>activeCommand := Some logsCommand, commandSearchQuery := ''ng''\<rparr>"]
      escape_unwinds_or_closes [of "initial\<lparr>isOpen := True\<rparr>"] c i
    by (simp add: close_def)
qed

text \<open>
  C8, as the claim states it, fails: with \<open>kind:\<close> typed outside command mode the
  suggestions are shown, and Escape closes the palette.
\<close>

lemma suggest_state:
  "handleInput (initial\<lparr>isOpen := True, allResources := [pod_a], input_value := ''kind:''\<rparr>)
    = initial\<lparr>isOpen := True, allResources := [pod_a], input_value := ''kind:'',
        autocompleteFilterType := Some Kind, autocompleteSuggestions := [''Pod''],
        autocompleteSelectedIndex := 0, searchDebounceTimer := True\<rparr>"
  by (simp add: handleInput_def updateAutocompleteHint_def startsWith_def plainHint_def
        filterMatch_def trim_def setSuggestions_def plainSuggestions_def kindValues_def
        array_from_set_def pod_a_def initial_def string_eval)

theorem escape_counterexample:
  "\<not> isCommandMode (handleInput (initial\<lparr>isOpen := True, allResources := [pod_a], input_value := ''kind:''\<rparr>))
   \<and> autocompleteFilterType (handleInput (initial\<lparr>isOpen := True, allResources := [pod_a], input_value := ''kind:''\<rparr>)) = Some Kind
   \<and> autocompleteSuggestions (handleInput (initial\<lparr>isOpen := True, allResources := [pod_a], input_value := ''kind:''\<rparr>)) = [''Pod'']
   \<and> isOpen (handleInput (initial\<lparr>isOpen := True, allResources := [pod_a], input_value := ''kind:''\<rparr>))
   \<and> \<not> isOpen (handleKeyDown Escape
         (handleInput (initial\<lparr>isOpen := True, allResources := [pod_a], input_value := ''kind:''\<rparr>)))"
  unfolding suggest_state
  by (simp add: handleKeyDown_def handleKeyDown_suggest_def close_def initial_def)

section \<open>Suggestions\<close>

lemma sort_array_from_set: "sort (array_from_set xs) = sort (remdups xs)"
  by (rule sorted_distinct_set_unique) (simp_all add: array_from_set_def)

lemma namespace_values:
  "map (\<lambda>r. the (namespace r)) (filter (\<lambda>r. truthy (namespace r)) rs)
     = concat (map (\<lambda>r. case namespace r of None \<Rightarrow> [] | Some ns \<Rightarrow> if ns = [] then [] else [ns]) rs)"
  by (induction rs) (auto simp: truthy_def split: option.splits)

lemma sort_fieldValues:
  "sort (kindValues rs) = sort (spec_fieldValues Kind rs)"
  "sort (namespaceValues rs) = sort (spec_fieldValues Namespace rs)"
  "sort (nodeValues rs) = sort (spec_fieldValues Node rs)"
  by (simp_all add: kindValues_def namespaceValues_def nodeValues_def spec_fieldValues_def
        sort_array_from_set namespace_values)

lemma filter_trivial: "filter (\<lambda>v. js_includes (toLowerCase v) (toLowerCase [])) xs = xs"
proof -
  have "js_includes s []" for s by (cases s) simp_all
  then show ?thesis by (simp add: toLowerCase_def)
qed

lemma plainSuggestions_eq:
  "plainSuggestions attribute partial rs = spec_suggestions attribute partial None rs"
  by (cases attribute)
     (simp_all add: plainSuggestions_def spec_suggestions_def filter_sort [symmetric]
        sort_fieldValues filter_trivial)

lemma suggestions_plain:
  assumes "\<not> startsWith (input_value st) ''/''" "filterMatch (input_value st) = Some (attribute, raw)"
  shows "autocompleteSuggestions (updateAutocompleteHint st)
      = plainSuggestions attribute (trim raw) (allResources st)"
    and "autocompleteFilterType (updateAutocompleteHint st) = Some attribute"
  using assms
  by (simp_all add: updateAutocompleteHint_def plainHint_def setSuggestions_def)

lemma autocompleteSuggestions_setSuggestions [simp]:
  "autocompleteSuggestions (setSuggestions s st) = s"
  by (simp add: setSuggestions_def)

lemma suggestions_command:
  assumes "startsWith (input_value st) ''/''"
    "commandMatch (input_value st) = Some (cmdName, Some searchQuery)"
    "findIndex (\<lambda>cmd. cmd_id cmd = toLowerCase cmdName
                 \<or> startsWith (toLowerCase (label cmd)) (toLowerCase cmdName))
       (availableCommands st) = Some i"
    "filterMatch searchQuery = Some (attribute, raw)"
  shows "autocompleteSuggestions (updateAutocompleteHint st)
      = commandSuggestions (availableCommands st ! i) attribute (trim raw) (allResources st)"
  using assms
  by (simp add: updateAutocompleteHint_def commandHint_def Let_def)


lemma commandSuggestions_prefix:
  "prefix (commandSuggestions cmd attribute partial rs)
     (sort (filter (\<lambda>v. js_includes (toLowerCase v) (toLowerCase partial))
        (case (attribute, resourceTypes cmd) of
           (Kind, Some kinds) \<Rightarrow> kinds
         | _ \<Rightarrow> spec_fieldValues attribute rs)))"
  by (cases attribute; cases "resourceTypes cmd")
     (simp_all add: commandSuggestions_def filter_sort [symmetric] sort_fieldValues
        filter_trivial take_is_prefix Let_def)

lemma commandSuggestions_empty:
  "commandSuggestions cmd attribute [] rs
     = (case (attribute, resourceTypes cmd) of
          (Kind, Some kinds) \<Rightarrow> sort kinds
        | _ \<Rightarrow> take 10 (sort (spec_fieldValues attribute rs)))"
  by (cases attribute; cases "resourceTypes cmd")
     (simp_all add: commandSuggestions_def sort_fieldValues)

lemma commands_of_typed:
  "availableCommands (typed b rs) = [logsCommand, describeCommand, deleteCommand, refreshCommand]"
  "input_value (typed b rs) = b" "allResources (typed b rs) = rs"
  by (simp_all add: typed_def)

lemma parse1: "commandMatch ''/logs kind:'' = Some (''logs'', Some ''kind:'')"
  by (simp add: commandMatch_def Let_def string_eval)

lemma parse2: "commandMatch ''/describe namespace:n'' = Some (''describe'', Some ''namespace:n'')"
  by (simp add: commandMatch_def Let_def string_eval)

lemma parse3: "filterMatch ''kind:'' = Some (Kind, [])" "filterMatch ''namespace:n'' = Some (Namespace, ''n'')"
  "filterMatch ''namespace:2 '' = Some (Namespace, ''2 '')"
  by (simp_all add: filterMatch_def string_eval)

lemma find1:
  "findIndex (\<lambda>cmd. cmd_id cmd = toLowerCase ''logs''
                 \<or> startsWith (toLowerCase (label cmd)) (toLowerCase ''logs''))
       [logsCommand, describeCommand, deleteCommand, refreshCommand] = Some 0"
  "findIndex (\<lambda>cmd. cmd_id cmd = toLowerCase ''describe''
                 \<or> startsWith (toLowerCase (label cmd)) (toLowerCase ''describe''))
       [logsCommand, describeCommand, deleteCommand, refreshCommand] = Some 1"
  by (simp_all add: logsCommand_def describeCommand_def startsWith_def string_eval)

lemma vals9: "sort (filter (\<lambda>v. js_includes (toLowerCase v) (toLowerCase ''n'')) (namespaceValues nine_namespaces))
  = [''ns1'', ''ns2'', ''ns3'', ''ns4'', ''ns5'', ''ns6'', ''ns7'', ''ns8'', ''ns9'']"
  by (simp add: namespaceValues_def nine_namespaces_def array_from_set_def truthy_def string_eval)


lemma starts: "startsWith ''/logs kind:'' ''/''" "startsWith ''/describe namespace:n'' ''/''"
  "\<not> startsWith ''kind:'' ''/''" "\<not> startsWith ''namespace:2 '' ''/''"
  by (simp_all add: startsWith_def)

lemma logs_kind_parsed:
  "startsWith (input_value (typed ''/logs kind:'' rs)) ''/''
   \<and> commandMatch (input_value (typed ''/logs kind:'' rs)) = Some (''logs'', Some ''kind:'')
   \<and> findIndex (\<lambda>cmd. cmd_id cmd = toLowerCase ''logs''
                  \<or> startsWith (toLowerCase (label cmd)) (toLowerCase ''logs''))
        (availableCommands (typed ''/logs kind:'' rs)) = Some 0
   \<and> filterMatch ''kind:'' = Some (Kind, [])"
  unfolding commands_of_typed by (intro conjI starts(1) parse1 find1(1) parse3(1))

lemma describe_namespace_parsed:
  "startsWith (input_value (typed ''/describe namespace:n'' rs)) ''/''
   \<and> commandMatch (input_value (typed ''/describe namespace:n'' rs))
       = Some (''describe'', Some ''namespace:n'')
   \<and> findIndex (\<lambda>cmd. cmd_id cmd = toLowerCase ''describe''
                  \<or> startsWith (toLowerCase (label cmd)) (toLowerCase ''describe''))
        (availableCommands (typed ''/describe namespace:n'' rs)) = Some 1
   \<and> filterMatch ''namespace:n'' = Some (Namespace, ''n'')"
  unfolding commands_of_typed by (intro conjI starts(2) parse2 find1(2) parse3(2))

lemma trims: "trim ''n'' = ''n''" "trim [] = []" "trim ''2 '' = ''2''"
  by (simp_all add: trim_def isSpace_def)

lemma nth_commands:
  "[logsCommand, describeCommand, deleteCommand, refreshCommand] ! 0 = logsCommand"
  "[logsCommand, describeCommand, deleteCommand, refreshCommand] ! 1 = describeCommand"
  by simp_all

text \<open>
  C7, as the claim states it, fails under a command. With \<open>/logs kind:\<close> typed and no
  resource loaded the suggestion is \<open>Pod\<close>, the accepted kind of the command, which is
  no value of the field in the resource set. And with \<open>/describe namespace:n\<close> typed
  over nine namespaces that all contain \<open>n\<close>, nine suggestions are shown, not eight.
\<close>

theorem suggestions_counterexample:
  "autocompleteSuggestions (updateAutocompleteHint (typed ''/logs kind:'' [])) = [''Pod'']
   \<and> spec_suggestions Kind [] (Some [''Pod'']) [] = []
   \<and> length (autocompleteSuggestions
        (updateAutocompleteHint (typed ''/describe namespace:n'' nine_namespaces))) = 9
   \<and> length (spec_suggestions Namespace ''n'' None nine_namespaces) = 8"
proof -
  note l = logs_kind_parsed [of "[]"]
  have a: "autocompleteSuggestions (updateAutocompleteHint (typed ''/logs kind:'' []))
      = commandSuggestions logsCommand Kind [] []"
    using suggestions_command
      [OF l [THEN conjunct1] l [THEN conjunct2, THEN conjunct1]
        l [THEN conjunct2, THEN conjunct2, THEN conjunct1]
        l [THEN conjunct2, THEN conjunct2, THEN conjunct2]]
    unfolding commands_of_typed nth_commands trims .
  have a': "commandSuggestions logsCommand Kind [] [] = [''Pod'']"
    by (simp add: commandSuggestions_def logsCommand_def)
  note d = describe_namespace_parsed [of nine_namespaces]
  have b: "autocompleteSuggestions
        (updateAutocompleteHint (typed ''/describe namespace:n'' nine_namespaces))
      = commandSuggestions describeCommand Namespace ''n'' nine_namespaces"
    using suggestions_command
      [OF d [THEN conjunct1] d [THEN conjunct2, THEN conjunct1]
        d [THEN conjunct2, THEN conjunct2, THEN conjunct1]
        d [THEN conjunct2, THEN conjunct2, THEN conjunct2]]
    unfolding commands_of_typed nth_commands trims .
  have b': "commandSuggestions describeCommand Namespace ''n'' nine_namespaces
      = [''ns1'', ''ns2'', ''ns3'', ''ns4'', ''ns5'', ''ns6'', ''ns7'', ''ns8'', ''ns9'']"
    unfolding commandSuggestions_def Let_def by (simp add: vals9)
  have c: "spec_suggestions Kind [] (Some [''Pod'']) [] = []"
    by (simp add: spec_suggestions_def spec_fieldValues_def)
  have "spec_suggestions Namespace ''n'' None nine_namespaces
      = plainSuggestions Namespace ''n'' nine_namespaces"
    by (simp add: plainSuggestions_eq)
  also have "\<dots> = take 8 [''ns1'', ''ns2'', ''ns3'', ''ns4'', ''ns5'', ''ns6'', ''ns7'', ''ns8'', ''ns9'']"
    unfolding plainSuggestions_def Let_def by (simp add: vals9)
  finally have d: "length (spec_suggestions Namespace ''n'' None nine_namespaces) = 8"
    by simp
  from a a' b b' c d show ?thesis by simp
qed

text \<open>
  C7, amended. Outside command mode the suggestions are as the claim says: the distinct
  values of the attribute's field across the unfiltered resource set (the kinds, the
  non-empty namespaces, the names of the resources of kind \<open>Node\<close>), sorted by code unit,
  filtered by case-insensitive substring match against the trimmed partial value, and
  capped at 10, or at 8 under a non-empty partial value. Under a command the candidates
  of the kind attribute are the accepted kinds of the command themselves, when it has
  any, and the same field values otherwise; the suggestions are an initial part of the
  sorted candidates that match the partial value: with an empty partial value all the
  accepted kinds, or else the first 10 values.
\<close>

theorem suggestions_derivation:
  "(\<not> startsWith (input_value st) ''/'' \<and> filterMatch (input_value st) = Some (attribute, raw)
    \<longrightarrow> autocompleteFilterType (updateAutocompleteHint st) = Some attribute
        \<and> autocompleteSuggestions (updateAutocompleteHint st)
            = spec_suggestions attribute (trim raw) None (allResources st))
   \<and> (startsWith (input_value st) ''/''
       \<and> commandMatch (input_value st) = Some (cmdName, Some searchQuery)
       \<and> findIndex (\<lambda>cmd. cmd_id cmd = toLowerCase cmdName
                      \<or> startsWith (toLowerCase (label cmd)) (toLowerCase cmdName))
            (availableCommands st) = Some i
       \<and> filterMatch searchQuery = Some (attribute, raw)
    \<longrightarrow> prefix (autocompleteSuggestions (updateAutocompleteHint st))
          (sort (filter (\<lambda>v. js_includes (toLowerCase v) (toLowerCase (trim raw)))
             (case (attribute, resourceTypes (availableCommands st ! i)) of
                (Kind, Some kinds) \<Rightarrow> kinds
              | _ \<Rightarrow> spec_fieldValues attribute (allResources st))))
        \<and> (trim raw = []
           \<longrightarrow> autocompleteSuggestions (updateAutocompleteHint st)
                = (case (attribute, resourceTypes (availableCommands st ! i)) of
                     (Kind, Some kinds) \<Rightarrow> sort kinds
                   | _ \<Rightarrow> take 10 (sort (spec_fieldValues attribute (allResources st))))))"
proof (intro conjI impI)
  assume h: "\<not> startsWith (input_value st) ''/'' \<and> filterMatch (input_value st) = Some (attribute, raw)"
  then show "autocompleteFilterType (updateAutocompleteHint st) = Some attribute"
    by (simp add: suggestions_plain)
  from h show "autocompleteSuggestions (updateAutocompleteHint st)
      = spec_suggestions attribute (trim raw) None (allResources st)"
    by (simp add: suggestions_plain plainSuggestions_eq)
next
  assume h: "startsWith (input_value st) ''/''
       \<and> commandMatch (input_value st) = Some (cmdName, Some searchQuery)
       \<and> findIndex (\<lambda>cmd. cmd_id cmd = toLowerCase cmdName
                      \<or> startsWith (toLowerCase (label cmd)) (toLowerCase cmdName))
            (availableCommands st) = Some i
       \<and> filterMatch searchQuery = Some (attribute, raw)"
  then have eq: "autocompleteSuggestions (updateAutocompleteHint st)
      = commandSuggestions (availableCommands st ! i) attribute (trim raw) (allResources st)"
    by (simp add: suggestions_command)
  show "prefix (autocompleteSuggestions (updateAutocompleteHint st))
          (sort (filter (\<lambda>v. js_includes (toLowerCase v) (toLowerCase (trim raw)))
             (case (attribute, resourceTypes (availableCommands st ! i)) of
                (Kind, Some kinds) \<Rightarrow> kinds
              | _ \<Rightarrow> spec_fieldValues attribute (allResources st))))"
    unfolding eq by (rule commandSuggestions_prefix)
  assume "trim raw = []"
  then show "autocompleteSuggestions (updateAutocompleteHint st)
                = (case (attribute, resourceTypes (availableCommands st ! i)) of
                     (Kind, Some kinds) \<Rightarrow> sort kinds
                   | _ \<Rightarrow> take 10 (sort (spec_fieldValues attribute (allResources st))))"
    unfolding eq by (simp add: commandSuggestions_empty)
qed

theorem suggestions_derivation_witness:
  "autocompleteSuggestions (updateAutocompleteHint (typed ''kind:'' [pod_a, pod_b, service_a]))
     = [''Pod'', ''Service'']
   \<and> autocompleteSuggestions
        (updateAutocompleteHint (typed ''namespace:2 '' [pod_a, pod_b, service_a])) = [''ns2'']
   \<and> autocompleteSuggestions (updateAutocompleteHint (typed ''/logs kind:'' [service_a]))
       = [''Pod'']"
proof -
  let ?rs = "[pod_a, pod_b, service_a]"
  note tr = trims
  have h1: "\<not> startsWith (input_value (typed ''kind:'' ?rs)) ''/''
      \<and> filterMatch (input_value (typed ''kind:'' ?rs)) = Some (Kind, [])"
    and h2: "\<not> startsWith (input_value (typed ''namespace:2 '' ?rs)) ''/''
      \<and> filterMatch (input_value (typed ''namespace:2 '' ?rs)) = Some (Namespace, ''2 '')"
    by (simp_all add: commands_of_typed starts parse3)
  note h3 = logs_kind_parsed [of "[service_a]"]
  have v1: "spec_suggestions Kind [] None ?rs = [''Pod'', ''Service'']"
    by (simp add: spec_suggestions_def spec_fieldValues_def pod_a_def pod_b_def service_a_def
          toLowerCase_def)
  have v2: "spec_suggestions Namespace ''2'' None ?rs = [''ns2'']"
    by (simp add: spec_suggestions_def spec_fieldValues_def pod_a_def pod_b_def service_a_def
          string_eval)
  have v3: "resourceTypes logsCommand = Some [''Pod'']"
    by (simp add: logsCommand_def)
  have r1: "autocompleteSuggestions (updateAutocompleteHint (typed ''kind:'' ?rs))
      = [''Pod'', ''Service'']"
    using suggestions_derivation [of "typed ''kind:'' ?rs" Kind "[]", THEN conjunct1, THEN mp, OF h1]
    by (simp add: tr commands_of_typed v1)
  have r2: "autocompleteSuggestions (updateAutocompleteHint (typed ''namespace:2 '' ?rs))
      = [''ns2'']"
    using suggestions_derivation
      [of "typed ''namespace:2 '' ?rs" Namespace "''2 ''", THEN conjunct1, THEN mp, OF h2]
    by (simp add: tr commands_of_typed v2)
  have r3: "autocompleteSuggestions (updateAutocompleteHint (typed ''/logs kind:'' [service_a]))
      = [''Pod'']"
    using suggestions_derivation
      [of "typed ''/logs kind:'' [service_a]" Kind "[]" "''logs''" "''kind:''" 0,
        THEN conjunct2, THEN mp, OF h3]
    unfolding commands_of_typed nth_commands by (simp add: tr v3)
  from r1 r2 r3 show ?thesis by simp
qed

section \<open>The request channel: timeouts and cleanup\<close>

lemma registered_window0: "registered window0" "timers_ahead window0"
  by (simp_all add: registered_def timers_ahead_def window0_def)

lemma registered_request:
  assumes "registered w"
  shows "registered (requestFromIframe k rid w)"
proof -
  have fresh: "nextPromise w \<notin> fst ` set (listeners w)" "nextPromise w \<notin> fst ` set (timers w)"
    using assms by (auto simp: registered_def)
  have none: "promises w (nextPromise w) = None"
    using assms by (simp add: registered_def)
  show ?thesis
    using assms fresh none
    unfolding registered_def requestFromIframe_def Let_def
    by (auto simp: less_Suc_eq)
qed

lemma ahead_request:
  "timers_ahead w \<Longrightarrow> timers_ahead (requestFromIframe k rid w)"
  by (simp add: timers_ahead_def requestFromIframe_def Let_def timeoutDelay_def)

lemma image_fst_filter:
  "fst ` set (filter (\<lambda>x. fst x \<noteq> p) xs) = fst ` set xs - {p}"
  by auto

lemma registered_settle:
  assumes "registered w" "p < nextPromise w" "promises w p = None"
  shows "registered (settle p outcome (cleanup p w))"
  using assms
  unfolding registered_def settle_def cleanup_def
  by (auto simp: image_fst_filter distinct_map_filter)


lemma pending_listener:
  "registered w \<Longrightarrow> fst l \<in> fst ` set (listeners w)
     \<Longrightarrow> fst l < nextPromise w \<and> promises w (fst l) = None"
  by (auto simp: registered_def)

lemma pending_timer:
  "registered w \<Longrightarrow> fst t \<in> fst ` set (timers w)
     \<Longrightarrow> fst t < nextPromise w \<and> promises w (fst t) = None"
  by (auto simp: registered_def)

lemma registered_messageHandler:
  assumes "registered w" "fst l \<in> fst ` set (listeners w)"
  shows "registered (messageHandler l d w)"
proof -
  obtain p k rid where l: "l = (p, k, rid)" by (cases l)
  with pending_listener [OF assms] have "p < nextPromise w" "promises w p = None" by simp_all
  then show ?thesis
    using assms(1) by (simp add: l messageHandler_def Let_def registered_settle)
qed

lemma registered_timeoutFired:
  assumes "registered w" "fst t \<in> fst ` set (timers w)"
  shows "registered (timeoutFired t w)"
proof -
  obtain p e k where t: "t = (p, e, k)" by (cases t)
  with pending_timer [OF assms] have "p < nextPromise w" "promises w p = None" by simp_all
  then show ?thesis
    using assms(1) by (simp add: t timeoutFired_def registered_settle)
qed

lemma fold_invariant:
  "P s \<Longrightarrow> (\<And>x s. P s \<Longrightarrow> P (f x s)) \<Longrightarrow> P (fold f xs s)"
  by (induction xs arbitrary: s) simp_all

lemma registered_dispatchMessage:
  "registered w \<Longrightarrow> registered (dispatchMessage d w)"
  unfolding dispatchMessage_def
  by (rule fold_invariant) (simp_all add: registered_messageHandler)

lemma registered_clock: "registered (w\<lparr>clock := c\<rparr>) = registered w"
  by (simp add: registered_def)

lemma registered_advance:
  "registered w \<Longrightarrow> registered (advance t w)"
  unfolding advance_def Let_def
  by (rule fold_invariant) (simp_all add: registered_timeoutFired registered_clock)

lemma timers_settle_cleanup:
  "timers (settle p outcome (cleanup p w)) = filter (\<lambda>t. fst t \<noteq> p) (timers w)"
  "clock (settle p outcome (cleanup p w)) = clock w"
  "listeners (settle p outcome (cleanup p w)) = filter (\<lambda>l. fst l \<noteq> p) (listeners w)"
  by (simp_all add: settle_def cleanup_def)

lemma messageHandler_timers:
  "set (timers (messageHandler l d w)) \<subseteq> set (timers w)"
  "clock (messageHandler l d w) = clock w"
  by (cases l; auto simp: messageHandler_def Let_def timers_settle_cleanup)+

lemma ahead_messageHandler:
  "timers_ahead w \<Longrightarrow> timers_ahead (messageHandler l d w)"
  using messageHandler_timers [of l d w]
  by (auto simp: timers_ahead_def list_all_iff)

lemma ahead_dispatchMessage:
  "timers_ahead w \<Longrightarrow> timers_ahead (dispatchMessage d w)"
  unfolding dispatchMessage_def
  by (rule fold_invariant) (simp_all add: ahead_messageHandler)

lemma fired_timers:
  "timers (fold (\<lambda>tm w'. if fst tm \<in> fst ` set (timers w') then timeoutFired tm w' else w') ds w)
     = filter (\<lambda>tm. fst tm \<notin> fst ` set ds) (timers w)"
proof (induction ds arbitrary: w)
  case Nil
  then show ?case by simp
next
  case (Cons d ds)
  let ?g = "\<lambda>tm w'. if fst tm \<in> fst ` set (timers w') then timeoutFired tm w' else w'"
  have one: "timers (?g d w) = filter (\<lambda>tm. fst tm \<noteq> fst d) (timers w)"
  proof (cases "fst d \<in> fst ` set (timers w)")
    case True
    then show ?thesis
      by (cases d) (simp add: timeoutFired_def timers_settle_cleanup)
  next
    case False
    then have "\<forall>tm\<in>set (timers w). fst tm \<noteq> fst d"
      by (metis imageI)
    then have "filter (\<lambda>tm. fst tm \<noteq> fst d) (timers w) = timers w"
      by simp
    with False show ?thesis by simp
  qed
  have "timers (fold ?g (d # ds) w) = timers (fold ?g ds (?g d w))"
    by simp
  also have "\<dots> = filter (\<lambda>tm. fst tm \<notin> fst ` set ds) (timers (?g d w))"
    by (rule Cons.IH)
  also have "\<dots> = filter (\<lambda>tm. fst tm \<notin> fst ` set (d # ds)) (timers w)"
    unfolding one by (auto intro: filter_cong)
  finally show ?case .
qed

lemma fired_clock:
  "clock (fold (\<lambda>tm w'. if fst tm \<in> fst ` set (timers w') then timeoutFired tm w' else w') ds w)
     = clock w"
  by (induction ds arbitrary: w)
     (auto simp: timeoutFired_def timers_settle_cleanup split: prod.splits)

lemma advance_clock: "clock (advance t w) = max (clock w) t"
  by (simp add: advance_def Let_def fired_clock)

lemma advance_timers:
  assumes "distinct (map fst (timers w))"
  shows "timers (advance t w) = filter (\<lambda>tm. \<not> fst (snd tm) \<le> max (clock w) t) (timers w)"
proof -
  have inj: "inj_on fst (set (timers w))"
    using assms by (simp add: distinct_map)
  have "timers (advance t w)
      = filter (\<lambda>tm. fst tm \<notin> fst ` set (filter (\<lambda>tm. fst (snd tm) \<le> max (clock w) t) (timers w)))
          (timers w)"
    by (simp add: advance_def Let_def fired_timers)
  also have "\<dots> = filter (\<lambda>tm. \<not> fst (snd tm) \<le> max (clock w) t) (timers w)"
  proof (rule filter_cong [OF refl])
    fix tm assume tm: "tm \<in> set (timers w)"
    show "(fst tm \<notin> fst ` set (filter (\<lambda>tm. fst (snd tm) \<le> max (clock w) t) (timers w)))
        = (\<not> fst (snd tm) \<le> max (clock w) t)"
    proof
      assume "fst tm \<notin> fst ` set (filter (\<lambda>tm. fst (snd tm) \<le> max (clock w) t) (timers w))"
      with tm show "\<not> fst (snd tm) \<le> max (clock w) t" by force
    next
      assume nd: "\<not> fst (snd tm) \<le> max (clock w) t"
      show "fst tm \<notin> fst ` set (filter (\<lambda>tm. fst (snd tm) \<le> max (clock w) t) (timers w))"
      proof
        assume "fst tm \<in> fst ` set (filter (\<lambda>tm. fst (snd tm) \<le> max (clock w) t) (timers w))"
        then obtain tm' where tm': "tm' \<in> set (timers w)" "fst (snd tm') \<le> max (clock w) t"
          "fst tm = fst tm'" by auto
        with inj tm have "tm = tm'" by (auto dest: inj_onD)
        with tm' nd show False by simp
      qed
    qed
  qed
  finally show ?thesis .
qed

lemma ahead_advance:
  assumes "registered w" "timers_ahead w"
  shows "timers_ahead (advance t w)"
proof -
  from assms(1) have "distinct (map fst (timers w))" by (simp add: registered_def)
  then show ?thesis
    using assms(2) by (auto simp: timers_ahead_def list_all_iff advance_timers advance_clock)
qed

lemma invariants_step:
  "registered w \<and> timers_ahead w \<Longrightarrow> registered (step ev w) \<and> timers_ahead (step ev w)"
  by (cases ev)
     (simp_all add: registered_request ahead_request registered_dispatchMessage
        ahead_dispatchMessage registered_advance ahead_advance)

lemma invariants_run:
  "registered w \<and> timers_ahead w \<Longrightarrow> registered (run es w) \<and> timers_ahead (run es w)"
  unfolding run_def by (rule fold_invariant) (simp_all add: invariants_step)

lemma reached: "registered (run es window0)" "timers_ahead (run es window0)"
  using invariants_run [of window0 es] by (simp_all add: registered_window0)

lemma no_listener_after_timeouts:
  assumes "registered w" "timers_ahead w"
  shows "listeners (advance (clock w + timeoutDelay) w) = []"
proof -
  from assms(1) have d: "distinct (map fst (timers w))" by (simp add: registered_def)
  have "timers (advance (clock w + timeoutDelay) w) = []"
    using assms(2) by (auto simp: advance_timers [OF d] timers_ahead_def list_all_iff filter_empty_conv)
  moreover have "registered (advance (clock w + timeoutDelay) w)"
    using assms(1) by (rule registered_advance)
  ultimately have "fst ` set (listeners (advance (clock w + timeoutDelay) w)) = {}"
    unfolding registered_def by (metis (no_types, lifting) image_is_empty set_empty)
  then show ?thesis by simp
qed


lemma fold_invariant_set:
  "P s \<Longrightarrow> (\<And>x s. x \<in> set xs \<Longrightarrow> P s \<Longrightarrow> P (f x s)) \<Longrightarrow> P (fold f xs s)"
  by (induction xs arbitrary: s) simp_all

lemma same_handle:
  "distinct (map fst xs) \<Longrightarrow> x \<in> set xs \<Longrightarrow> y \<in> set xs \<Longrightarrow> fst x = fst y \<Longrightarrow> x = y"
  by (auto simp: distinct_map dest: inj_onD)

lemma tracked_request:
  assumes "awaiting p k rid e w \<or> (promises w p = Some (Rejected (timeoutError k)) \<and> e \<le> clock w)"
  shows "awaiting p k rid e (requestFromIframe k' rid' w)
     \<or> (promises (requestFromIframe k' rid' w) p = Some (Rejected (timeoutError k))
        \<and> e \<le> clock (requestFromIframe k' rid' w))"
  using assms by (auto simp: awaiting_def requestFromIframe_def Let_def)

lemma tracked_messageHandler:
  assumes reg: "registered w" and l: "l \<in> set (listeners w)"
    and tr: "awaiting p k rid e w \<or> (promises w p = Some (Rejected (timeoutError k)) \<and> e \<le> clock w)"
    and no: "\<not> isResponseFor k rid d"
  shows "awaiting p k rid e (messageHandler l d w)
     \<or> (promises (messageHandler l d w) p = Some (Rejected (timeoutError k))
        \<and> e \<le> clock (messageHandler l d w))"
proof -
  obtain p' k' rid' where l': "l = (p', k', rid')" by (cases l)
  show ?thesis
  proof (cases "isResponseFor k' rid' d")
    case False
    with tr show ?thesis by (simp add: l' messageHandler_def)
  next
    case True
    from reg l l' have pend: "promises w p' = None"
      using pending_listener [of w l] by force
    have neq: "p' \<noteq> p"
    proof
      assume "p' = p"
      with pend tr have "awaiting p k rid e w" by auto
      then have "(p, k, rid) \<in> set (listeners w)" by (simp add: awaiting_def)
      with reg l l' \<open>p' = p\<close> have "(p', k', rid') = (p, k, rid)"
        using same_handle [of "listeners w" "(p', k', rid')" "(p, k, rid)"]
        by (simp add: registered_def)
      with True no show False by simp
    qed
    with tr True show ?thesis
      by (auto simp: l' messageHandler_def awaiting_def settle_def cleanup_def)
  qed
qed

lemma listeners_messageHandler:
  "set (listeners (messageHandler l d w)) \<subseteq> set (listeners w)"
  by (cases l) (auto simp: messageHandler_def settle_def cleanup_def)

lemma tracked_dispatchMessage:
  assumes reg: "registered w"
    and tr: "awaiting p k rid e w \<or> (promises w p = Some (Rejected (timeoutError k)) \<and> e \<le> clock w)"
    and no: "\<not> isResponseFor k rid d"
  shows "awaiting p k rid e (dispatchMessage d w)
     \<or> (promises (dispatchMessage d w) p = Some (Rejected (timeoutError k))
        \<and> e \<le> clock (dispatchMessage d w))"
proof -
  let ?Q = "\<lambda>w'. registered w' \<and> set (listeners w') \<subseteq> set (listeners w)
      \<and> (awaiting p k rid e w'
          \<or> (promises w' p = Some (Rejected (timeoutError k)) \<and> e \<le> clock w'))"
  let ?g = "\<lambda>l w'. if fst l \<in> fst ` set (listeners w') then messageHandler l d w' else w'"
  have "?Q (fold ?g (listeners w) w)"
  proof (rule fold_invariant_set)
    show "?Q w" using reg tr by simp
  next
    fix l w' assume l: "l \<in> set (listeners w)" and Q: "?Q w'"
    show "?Q (?g l w')"
    proof (cases "fst l \<in> fst ` set (listeners w')")
      case False
      with Q show ?thesis by simp
    next
      case True
      then obtain l' where l': "l' \<in> set (listeners w')" "fst l = fst l'" by auto
      with Q have "l' \<in> set (listeners w)" by auto
      with reg l l' have "l = l'"
        using same_handle [of "listeners w" l l'] by (simp add: registered_def)
      with l' have mem: "l \<in> set (listeners w')" by simp
      from Q have "registered (messageHandler l d w')"
        using True by (simp add: registered_messageHandler)
      moreover have "set (listeners (messageHandler l d w')) \<subseteq> set (listeners w)"
        using listeners_messageHandler [of l d w'] Q by auto
      moreover have "awaiting p k rid e (messageHandler l d w')
          \<or> (promises (messageHandler l d w') p = Some (Rejected (timeoutError k))
             \<and> e \<le> clock (messageHandler l d w'))"
        using Q mem no by (intro tracked_messageHandler) simp_all
      ultimately show ?thesis using True by simp
    qed
  qed
  then show ?thesis by (simp add: dispatchMessage_def)
qed


lemma tracked_timeoutFired:
  assumes reg: "registered w" and t: "t \<in> set (timers w)" and due: "fst (snd t) \<le> clock w"
    and tr: "awaiting p k rid e w \<or> (promises w p = Some (Rejected (timeoutError k)) \<and> e \<le> clock w)"
  shows "awaiting p k rid e (timeoutFired t w)
     \<or> (promises (timeoutFired t w) p = Some (Rejected (timeoutError k))
        \<and> e \<le> clock (timeoutFired t w))"
proof -
  obtain p' e' k' where t': "t = (p', e', k')" by (cases t)
  from reg t t' have pend: "promises w p' = None"
    using pending_timer [of w t] by force
  show ?thesis
  proof (cases "p' = p")
    case True
    with pend tr have "awaiting p k rid e w" by auto
    then have "(p, e, k) \<in> set (timers w)" by (simp add: awaiting_def)
    with reg t t' True have "(p', e', k') = (p, e, k)"
      using same_handle [of "timers w" "(p', e', k')" "(p, e, k)"]
      by (simp add: registered_def)
    with pend due t' show ?thesis
      by (simp add: timeoutFired_def settle_def cleanup_def)
  next
    case False
    with tr show ?thesis
      by (auto simp: t' timeoutFired_def awaiting_def settle_def cleanup_def)
  qed
qed

lemma timers_timeoutFired:
  "set (timers (timeoutFired t w)) \<subseteq> set (timers w)"
  "clock (timeoutFired t w) = clock w"
  by (cases t; auto simp: timeoutFired_def settle_def cleanup_def)+

lemma tracked_advance:
  assumes reg: "registered w"
    and tr: "awaiting p k rid e w \<or> (promises w p = Some (Rejected (timeoutError k)) \<and> e \<le> clock w)"
  shows "awaiting p k rid e (advance t w)
     \<or> (promises (advance t w) p = Some (Rejected (timeoutError k)) \<and> e \<le> clock (advance t w))"
proof -
  let ?w1 = "w\<lparr>clock := max (clock w) t\<rparr>"
  let ?due = "filter (\<lambda>tm. fst (snd tm) \<le> clock ?w1) (timers w)"
  let ?Q = "\<lambda>w'. registered w' \<and> set (timers w') \<subseteq> set (timers w) \<and> clock w' = clock ?w1
      \<and> (awaiting p k rid e w'
          \<or> (promises w' p = Some (Rejected (timeoutError k)) \<and> e \<le> clock w'))"
  let ?g = "\<lambda>tm w'. if fst tm \<in> fst ` set (timers w') then timeoutFired tm w' else w'"
  have "?Q (fold ?g ?due ?w1)"
  proof (rule fold_invariant_set)
    show "?Q ?w1" using reg tr by (auto simp: registered_clock awaiting_def)
  next
    fix tm w' assume tm: "tm \<in> set ?due" and Q: "?Q w'"
    show "?Q (?g tm w')"
    proof (cases "fst tm \<in> fst ` set (timers w')")
      case False
      with Q show ?thesis by auto
    next
      case True
      then obtain tm' where tm': "tm' \<in> set (timers w')" "fst tm = fst tm'" by auto
      with Q have "tm' \<in> set (timers w)" by auto
      with reg tm tm' have "tm = tm'"
        using same_handle [of "timers w" tm tm'] by (simp add: registered_def)
      with tm' have mem: "tm \<in> set (timers w')" by simp
      from tm Q have due: "fst (snd tm) \<le> clock w'" by simp
      from Q have "registered (timeoutFired tm w')"
        using True by (simp add: registered_timeoutFired)
      moreover have "set (timers (timeoutFired tm w')) \<subseteq> set (timers w)"
        using timers_timeoutFired(1) [of tm w'] Q by auto
      moreover have "clock (timeoutFired tm w') = clock ?w1"
        using Q by (simp add: timers_timeoutFired)
      moreover have "awaiting p k rid e (timeoutFired tm w')
          \<or> (promises (timeoutFired tm w') p = Some (Rejected (timeoutError k))
             \<and> e \<le> clock (timeoutFired tm w'))"
      proof -
        from Q have r: "registered w'"
          and trQ: "awaiting p k rid e w'
            \<or> (promises w' p = Some (Rejected (timeoutError k)) \<and> e \<le> clock w')"
          by blast+
        show ?thesis by (rule tracked_timeoutFired [OF r mem due trQ])
      qed
      ultimately show ?thesis using True by auto
    qed
  qed
  then have "awaiting p k rid e (fold ?g ?due ?w1)
      \<or> (promises (fold ?g ?due ?w1) p = Some (Rejected (timeoutError k))
         \<and> e \<le> clock (fold ?g ?due ?w1))"
    by blast
  moreover have "advance t w = fold ?g ?due ?w1"
    by (simp add: advance_def Let_def)
  ultimately show ?thesis by (simp only:)
qed

lemma tracked_step:
  assumes "registered w"
    and "awaiting p k rid e w \<or> (promises w p = Some (Rejected (timeoutError k)) \<and> e \<le> clock w)"
    and "\<forall>d. ev = MessageEvent d \<longrightarrow> \<not> isResponseFor k rid d"
  shows "awaiting p k rid e (step ev w)
     \<or> (promises (step ev w) p = Some (Rejected (timeoutError k)) \<and> e \<le> clock (step ev w))"
proof (cases ev)
  case (RequestIssued k' rid')
  with assms(2) show ?thesis by (simp add: tracked_request)
next
  case (MessageEvent d)
  with assms show ?thesis by (simp add: tracked_dispatchMessage)
next
  case (TimePasses t)
  with assms show ?thesis by (simp add: tracked_advance)
qed

lemma tracked_run:
  assumes "registered w \<and> timers_ahead w"
    and "awaiting p k rid e w \<or> (promises w p = Some (Rejected (timeoutError k)) \<and> e \<le> clock w)"
    and "\<forall>d. MessageEvent d \<in> set es \<longrightarrow> \<not> isResponseFor k rid d"
  shows "awaiting p k rid e (run es w)
     \<or> (promises (run es w) p = Some (Rejected (timeoutError k)) \<and> e \<le> clock (run es w))"
  using assms
proof (induction es arbitrary: w)
  case Nil
  then show ?case by (simp add: run_def)
next
  case (Cons ev es)
  have "run (ev # es) w = run es (step ev w)" by (simp add: run_def)
  moreover have "registered (step ev w) \<and> timers_ahead (step ev w)"
    using Cons.prems(1) by (rule invariants_step)
  moreover have "awaiting p k rid e (step ev w)
      \<or> (promises (step ev w) p = Some (Rejected (timeoutError k)) \<and> e \<le> clock (step ev w))"
    using Cons.prems by (intro tracked_step) auto
  ultimately show ?case using Cons.IH [of "step ev w"] Cons.prems(3) by simp
qed

lemma awaiting_after_request:
  "registered w \<Longrightarrow>
   awaiting (nextPromise w) k rid (clock w + timeoutDelay) (requestFromIframe k rid w)"
  by (simp add: awaiting_def requestFromIframe_def Let_def registered_def)

lemma run_append: "run (es1 @ es2) w = run es2 (run es1 w)"
  by (simp add: run_def)

lemma run_Cons: "run (ev # es) w = run es (step ev w)"
  by (simp add: run_def)

lemma request_tracked:
  assumes "\<forall>d. MessageEvent d \<in> set es2 \<longrightarrow> \<not> isResponseFor k rid d"
  shows "awaiting (nextPromise (run es1 window0)) k rid (clock (run es1 window0) + timeoutDelay)
       (run (es1 @ RequestIssued k rid # es2) window0)
     \<or> (promises (run (es1 @ RequestIssued k rid # es2) window0) (nextPromise (run es1 window0))
           = Some (Rejected (timeoutError k))
        \<and> clock (run es1 window0) + timeoutDelay \<le> clock (run (es1 @ RequestIssued k rid # es2) window0))"
proof -
  let ?w = "run es1 window0"
  have inv: "registered ?w \<and> timers_ahead ?w" by (simp add: reached)
  then have inv': "registered (requestFromIframe k rid ?w) \<and> timers_ahead (requestFromIframe k rid ?w)"
    by (simp add: registered_request ahead_request)
  from inv have "awaiting (nextPromise ?w) k rid (clock ?w + timeoutDelay) (requestFromIframe k rid ?w)"
    by (simp add: awaiting_after_request)
  with inv' assms show ?thesis
    unfolding run_append run_Cons step.simps
    by (intro tracked_run) simp_all
qed

lemma request_times_out:
  assumes "\<forall>d. MessageEvent d \<in> set es2 \<longrightarrow> \<not> isResponseFor k rid d"
    and "clock (run es1 window0) + timeoutDelay \<le> clock (run (es1 @ RequestIssued k rid # es2) window0)"
  shows "promises (run (es1 @ RequestIssued k rid # es2) window0) (nextPromise (run es1 window0))
       = Some (Rejected (timeoutError k))"
proof -
  let ?w = "run (es1 @ RequestIssued k rid # es2) window0"
  have "timers_ahead ?w" by (rule reached)
  then have "\<not> awaiting (nextPromise (run es1 window0)) k rid (clock (run es1 window0) + timeoutDelay) ?w"
    using assms(2) by (auto simp: awaiting_def timers_ahead_def list_all_iff)
  with request_tracked [OF assms(1), of es1] show ?thesis by blast
qed


lemma settled_stays:
  "promises w p = Some out \<Longrightarrow> promises (messageHandler l d w) p = Some out"
  by (cases l) (auto simp: messageHandler_def settle_def cleanup_def)

lemma settled_stays_fold:
  "promises w p = Some out \<Longrightarrow>
   promises (fold (\<lambda>l w'. if fst l \<in> fst ` set (listeners w') then messageHandler l d w' else w')
      xs w) p = Some out"
  by (induction xs arbitrary: w) (simp_all add: settled_stays)

lemma answered_messageHandler:
  assumes reg: "registered w" and l: "l \<in> set (listeners w)"
    and tr: "awaiting p k rid e w \<or> promises w p = Some (responseOutcome k d)"
    and yes: "isResponseFor k rid d"
  shows "(awaiting p k rid e (messageHandler l d w)
          \<or> promises (messageHandler l d w) p = Some (responseOutcome k d))
     \<and> (l = (p, k, rid) \<longrightarrow> promises (messageHandler l d w) p = Some (responseOutcome k d))"
proof (cases "promises w p")
  case (Some out)
  with tr have "promises w p = Some (responseOutcome k d)" by (auto simp: awaiting_def)
  then show ?thesis by (simp add: settled_stays)
next
  case None
  with tr have aw: "awaiting p k rid e w" by auto
  obtain p' k' rid' where l': "l = (p', k', rid')" by (cases l)
  show ?thesis
  proof (cases "p' = p")
    case True
    from aw have "(p, k, rid) \<in> set (listeners w)" by (simp add: awaiting_def)
    with reg l l' True have "l = (p, k, rid)"
      using same_handle [of "listeners w" "(p', k', rid')" "(p, k, rid)"]
      by (simp add: registered_def)
    with None yes show ?thesis
      by (simp add: messageHandler_def settle_def cleanup_def)
  next
    case False
    with aw show ?thesis
      by (auto simp: l' messageHandler_def awaiting_def settle_def cleanup_def)
  qed
qed

lemma answered_fold:
  assumes reg0: "distinct (map fst ls)" and yes: "isResponseFor k rid d"
  shows "registered w \<Longrightarrow> set (listeners w) \<subseteq> set ls \<Longrightarrow> set xs \<subseteq> set ls
     \<Longrightarrow> awaiting p k rid e w \<or> promises w p = Some (responseOutcome k d)
     \<Longrightarrow> (p, k, rid) \<in> set xs
     \<Longrightarrow> promises (fold (\<lambda>l w'. if fst l \<in> fst ` set (listeners w') then messageHandler l d w'
                              else w') xs w) p
         = Some (responseOutcome k d)"
proof (induction xs arbitrary: w)
  case Nil
  then show ?case by simp
next
  case (Cons x xs)
  let ?g = "\<lambda>l w'. if fst l \<in> fst ` set (listeners w') then messageHandler l d w' else w'"
  have step: "registered (?g x w) \<and> set (listeners (?g x w)) \<subseteq> set ls
      \<and> (awaiting p k rid e (?g x w) \<or> promises (?g x w) p = Some (responseOutcome k d))
      \<and> (x = (p, k, rid) \<longrightarrow> promises (?g x w) p = Some (responseOutcome k d))"
  proof (cases "fst x \<in> fst ` set (listeners w)")
    case False
    then have g: "?g x w = w" by simp
    have "x = (p, k, rid) \<longrightarrow> promises w p = Some (responseOutcome k d)"
    proof
      assume x: "x = (p, k, rid)"
      with False have "\<not> awaiting p k rid e w" by (force simp: awaiting_def)
      with Cons.prems(4) show "promises w p = Some (responseOutcome k d)" by simp
    qed
    with Cons.prems(1,2,4) show ?thesis unfolding g by blast
  next
    case True
    then obtain x' where x': "x' \<in> set (listeners w)" "fst x = fst x'" by auto
    with Cons.prems(2,3) reg0 have "x = x'"
      using same_handle [of ls x x'] by auto
    with x' have mem: "x \<in> set (listeners w)" by simp
    have "registered (messageHandler x d w)"
      using Cons.prems(1) True by (rule registered_messageHandler)
    moreover have "set (listeners (messageHandler x d w)) \<subseteq> set ls"
      using listeners_messageHandler [of x d w] Cons.prems(2) by auto
    moreover from True have g: "?g x w = messageHandler x d w" by simp
    ultimately show ?thesis
      using answered_messageHandler [OF Cons.prems(1) mem Cons.prems(4) yes]
      unfolding g by blast
  qed
  show ?case
  proof (cases "x = (p, k, rid)")
    case True
    with step have "promises (?g x w) p = Some (responseOutcome k d)" by simp
    then have "promises (fold ?g xs (?g x w)) p = Some (responseOutcome k d)"
      by (rule settled_stays_fold)
    then show ?thesis by simp
  next
    case False
    with Cons.prems(5) have "(p, k, rid) \<in> set xs" by simp
    moreover from Cons.prems(3) have "set xs \<subseteq> set ls" by simp
    ultimately have "promises (fold ?g xs (?g x w)) p = Some (responseOutcome k d)"
      using step by (intro Cons.IH) simp_all
    then show ?thesis by simp
  qed
qed

lemma response_settles:
  assumes "registered w" "awaiting p k rid e w" "isResponseFor k rid d"
  shows "promises (dispatchMessage d w) p = Some (responseOutcome k d)"
proof -
  from assms(1) have "distinct (map fst (listeners w))" by (simp add: registered_def)
  moreover from assms(2) have "(p, k, rid) \<in> set (listeners w)" by (simp add: awaiting_def)
  ultimately show ?thesis
    unfolding dispatchMessage_def
    using assms by (intro answered_fold [where ls = "listeners w" and e = e]) simp_all
qed

lemma dispatch_clock: "clock (dispatchMessage d w) = clock w"
  unfolding dispatchMessage_def
  by (rule fold_invariant [where P = "\<lambda>w'. clock w' = clock w"])
     (simp_all add: messageHandler_timers)

lemma request_answered:
  assumes "\<forall>d'. MessageEvent d' \<in> set es2 \<longrightarrow> \<not> isResponseFor k rid d'"
    and "clock (run (es1 @ RequestIssued k rid # es2 @ [MessageEvent d]) window0)
           < clock (run es1 window0) + timeoutDelay"
    and "isResponseFor k rid d"
  shows "promises (run (es1 @ RequestIssued k rid # es2 @ [MessageEvent d]) window0)
       (nextPromise (run es1 window0)) = Some (responseOutcome k d)"
proof -
  let ?w = "run (es1 @ RequestIssued k rid # es2) window0"
  have split: "run (es1 @ RequestIssued k rid # es2 @ [MessageEvent d]) window0 = dispatchMessage d ?w"
    by (simp add: run_def)
  with assms(2) have "clock ?w < clock (run es1 window0) + timeoutDelay"
    by (simp add: dispatch_clock)
  with request_tracked [OF assms(1), of es1]
  have "awaiting (nextPromise (run es1 window0)) k rid (clock (run es1 window0) + timeoutDelay) ?w"
    by auto
  moreover have "registered ?w" by (rule reached)
  ultimately show ?thesis
    unfolding split using assms(3) by (intro response_settles) simp_all
qed

lemma settled_once:
  assumes "registered w" "p < nextPromise w"
  shows "count_list (cleanups w) p = (if promises w p = None then 0 else 1)
     \<and> (p \<in> fst ` set (listeners w)) = (promises w p = None)
     \<and> (p \<in> fst ` set (timers w)) = (promises w p = None)"
  using assms unfolding registered_def by auto


text \<open>
  C3. A request whose response does not arrive before the clock has gone 10000 ms past
  its issue is rejected with the timeout error of its kind, and a response of the right
  type and id that arrives before settles it with the outcome it carries. On either
  path, and at every moment of every run: a promise is settled exactly when its
  \<open>cleanup\<close> has run, and then \<open>cleanup\<close> has run once; its listener and its timer are
  registered exactly as long as it is pending. So once the delay has passed with nothing
  arriving, no listener is left, however many requests were waiting.
\<close>

theorem request_settles_with_one_cleanup:
  "(\<forall>p < nextPromise (run es window0).
       count_list (cleanups (run es window0)) p
         = (if promises (run es window0) p = None then 0 else 1)
     \<and> (p \<in> fst ` set (listeners (run es window0))) = (promises (run es window0) p = None)
     \<and> (p \<in> fst ` set (timers (run es window0))) = (promises (run es window0) p = None))
   \<and> listeners (advance (clock (run es window0) + timeoutDelay) (run es window0)) = []
   \<and> (es = es1 @ RequestIssued k requestId # es2
       \<and> (\<forall>d'. MessageEvent d' \<in> set es2 \<longrightarrow> \<not> isResponseFor k requestId d')
       \<and> clock (run es1 window0) + timeoutDelay \<le> clock (run es window0)
      \<longrightarrow> promises (run es window0) (nextPromise (run es1 window0))
            = Some (Rejected (timeoutError k)))
   \<and> (es = es1 @ RequestIssued k requestId # es2 @ [MessageEvent d]
       \<and> (\<forall>d'. MessageEvent d' \<in> set es2 \<longrightarrow> \<not> isResponseFor k requestId d')
       \<and> clock (run es window0) < clock (run es1 window0) + timeoutDelay
       \<and> isResponseFor k requestId d
      \<longrightarrow> promises (run es window0) (nextPromise (run es1 window0))
            = Some (responseOutcome k d))"
proof (intro conjI)
  show "\<forall>p < nextPromise (run es window0).
       count_list (cleanups (run es window0)) p
         = (if promises (run es window0) p = None then 0 else 1)
     \<and> (p \<in> fst ` set (listeners (run es window0))) = (promises (run es window0) p = None)
     \<and> (p \<in> fst ` set (timers (run es window0))) = (promises (run es window0) p = None)"
  proof (intro allI impI)
    fix p assume "p < nextPromise (run es window0)"
    with reached(1) show "count_list (cleanups (run es window0)) p
         = (if promises (run es window0) p = None then 0 else 1)
     \<and> (p \<in> fst ` set (listeners (run es window0))) = (promises (run es window0) p = None)
     \<and> (p \<in> fst ` set (timers (run es window0))) = (promises (run es window0) p = None)"
      by (rule settled_once)
  qed
next
  show "listeners (advance (clock (run es window0) + timeoutDelay) (run es window0)) = []"
    by (rule no_listener_after_timeouts [OF reached])
next
  show "es = es1 @ RequestIssued k requestId # es2
       \<and> (\<forall>d'. MessageEvent d' \<in> set es2 \<longrightarrow> \<not> isResponseFor k requestId d')
       \<and> clock (run es1 window0) + timeoutDelay \<le> clock (run es window0)
      \<longrightarrow> promises (run es window0) (nextPromise (run es1 window0))
            = Some (Rejected (timeoutError k))"
    using request_times_out [of es2 k requestId es1] by blast
next
  show "es = es1 @ RequestIssued k requestId # es2 @ [MessageEvent d]
       \<and> (\<forall>d'. MessageEvent d' \<in> set es2 \<longrightarrow> \<not> isResponseFor k requestId d')
       \<and> clock (run es window0) < clock (run es1 window0) + timeoutDelay
       \<and> isResponseFor k requestId d
      \<longrightarrow> promises (run es window0) (nextPromise (run es1 window0))
            = Some (responseOutcome k d)"
    using request_answered [of es2 k requestId es1 d] by blast
qed

lemma listeners_of_requests:
  "length (listeners (run (replicate n (RequestIssued k r)) w)) = length (listeners w) + n"
  by (induction n arbitrary: w) (simp_all add: run_def requestFromIframe_def Let_def)

lemma nextPromise_handlers:
  "nextPromise (messageHandler l d w) = nextPromise w"
  "nextPromise (timeoutFired t w) = nextPromise w"
  by (cases l; cases t; simp add: messageHandler_def timeoutFired_def settle_def cleanup_def)+

lemma nextPromise_dispatchMessage: "nextPromise (dispatchMessage d w) = nextPromise w"
  unfolding dispatchMessage_def
  by (rule fold_invariant [where P = "\<lambda>w'. nextPromise w' = nextPromise w"])
     (simp_all add: nextPromise_handlers)

lemma nextPromise_advance: "nextPromise (advance t w) = nextPromise w"
  unfolding advance_def Let_def
  by (rule fold_invariant [where P = "\<lambda>w'. nextPromise w' = nextPromise w"])
     (simp_all add: nextPromise_handlers)

lemmas run_eval = run_def nextPromise_advance nextPromise_dispatchMessage advance_clock
  dispatch_clock requestFromIframe_def window0_def timeoutDelay_def Let_def

theorem request_settles_with_one_cleanup_witness:
  "length (listeners (run (replicate 100 (RequestIssued ResourcesRequest ''r'')) window0)) = 100
   \<and> listeners
        (advance (clock (run (replicate 100 (RequestIssued ResourcesRequest ''r'')) window0)
                  + timeoutDelay)
           (run (replicate 100 (RequestIssued ResourcesRequest ''r'')) window0)) = []
   \<and> promises (run [RequestIssued ResourcesRequest ''r1'', TimePasses 10000] window0) 0
       = Some (Rejected ''Resource request timeout'')
   \<and> count_list (cleanups (run [RequestIssued ResourcesRequest ''r1'', TimePasses 10000] window0)) 0
       = 1
   \<and> promises
        (run [RequestIssued ResourcesRequest ''r1'', TimePasses 500,
              MessageEvent (Some \<lparr>data_type = Some ''k-menu-resources-response'',
                 data_requestId = Some ''r1'', data_error = None,
                 data_resources = Some [pod_a]\<rparr>)] window0) 0
       = Some (Resolved (Resources [pod_a]))
   \<and> promises
        (run [RequestIssued DeleteRequest ''r2'', TimePasses 500,
              MessageEvent (Some \<lparr>data_type = Some ''k-menu-delete-response'',
                 data_requestId = Some ''r2'', data_error = Some ''boom'',
                 data_resources = None\<rparr>)] window0) 0
       = Some (Rejected ''boom'')"
proof -
  let ?ok = "Some \<lparr>data_type = Some ''k-menu-resources-response'', data_requestId = Some ''r1'',
    data_error = None, data_resources = Some [pod_a]\<rparr>"
  let ?bad = "Some \<lparr>data_type = Some ''k-menu-delete-response'', data_requestId = Some ''r2'',
    data_error = Some ''boom'', data_resources = None\<rparr>"
  let ?es1 = "[RequestIssued ResourcesRequest ''r1'', TimePasses 10000]"
  let ?es2 = "[RequestIssued ResourcesRequest ''r1'', TimePasses 500, MessageEvent ?ok]"
  let ?es3 = "[RequestIssued DeleteRequest ''r2'', TimePasses 500, MessageEvent ?bad]"
  have a: "listeners
        (advance (clock (run (replicate 100 (RequestIssued ResourcesRequest ''r'')) window0)
                  + timeoutDelay)
           (run (replicate 100 (RequestIssued ResourcesRequest ''r'')) window0)) = []"
    using request_settles_with_one_cleanup
      [of "replicate 100 (RequestIssued ResourcesRequest ''r'')"]
    by blast
  have a': "length (listeners (run (replicate 100 (RequestIssued ResourcesRequest ''r'')) window0))
      = 100"
    by (simp add: listeners_of_requests window0_def)
  have h1: "?es1 = [] @ RequestIssued ResourcesRequest ''r1'' # [TimePasses 10000]
       \<and> (\<forall>d'. MessageEvent d' \<in> set [TimePasses 10000]
              \<longrightarrow> \<not> isResponseFor ResourcesRequest ''r1'' d')
       \<and> clock (run [] window0) + timeoutDelay \<le> clock (run ?es1 window0)"
    by (simp add: run_eval)
  have b: "promises (run ?es1 window0) 0 = Some (Rejected ''Resource request timeout'')"
    using request_settles_with_one_cleanup
      [of ?es1 "[]" ResourcesRequest "''r1''" "[TimePasses 10000]",
        THEN conjunct2, THEN conjunct2, THEN conjunct1, THEN mp, OF h1]
    by (simp add: run_def window0_def timeoutError_def)
  have n1: "0 < nextPromise (run ?es1 window0)"
    by (simp add: run_eval)
  have c: "count_list (cleanups (run ?es1 window0)) 0 = 1"
    using request_settles_with_one_cleanup [of ?es1, THEN conjunct1, THEN spec, THEN mp, OF n1] b
    by simp
  have okr: "isResponseFor ResourcesRequest ''r1'' ?ok" "isResponseFor DeleteRequest ''r2'' ?bad"
    by (simp_all add: isResponseFor_def responseType_def)
  have h2: "?es2 = [] @ RequestIssued ResourcesRequest ''r1'' # [TimePasses 500] @ [MessageEvent ?ok]
       \<and> (\<forall>d'. MessageEvent d' \<in> set [TimePasses 500]
              \<longrightarrow> \<not> isResponseFor ResourcesRequest ''r1'' d')
       \<and> clock (run ?es2 window0) < clock (run [] window0) + timeoutDelay
       \<and> isResponseFor ResourcesRequest ''r1'' ?ok"
    using okr(1) by (simp add: run_eval)
  have d: "promises (run ?es2 window0) 0 = Some (Resolved (Resources [pod_a]))"
    using request_settles_with_one_cleanup
      [of ?es2 "[]" ResourcesRequest "''r1''" "[TimePasses 500]" ?ok,
        THEN conjunct2, THEN conjunct2, THEN conjunct2, THEN mp, OF h2]
    by (simp add: run_def window0_def responseOutcome_def truthy_def)
  have h3: "?es3 = [] @ RequestIssued DeleteRequest ''r2'' # [TimePasses 500] @ [MessageEvent ?bad]
       \<and> (\<forall>d'. MessageEvent d' \<in> set [TimePasses 500]
              \<longrightarrow> \<not> isResponseFor DeleteRequest ''r2'' d')
       \<and> clock (run ?es3 window0) < clock (run [] window0) + timeoutDelay
       \<and> isResponseFor DeleteRequest ''r2'' ?bad"
    using okr(2) by (simp add: run_eval)
  have e: "promises (run ?es3 window0) 0 = Some (Rejected ''boom'')"
    using request_settles_with_one_cleanup
      [of ?es3 "[]" DeleteRequest "''r2''" "[TimePasses 500]" ?bad,
        THEN conjunct2, THEN conjunct2, THEN conjunct2, THEN mp, OF h3]
    by (simp add: run_def window0_def responseOutcome_def truthy_def)
  from a' a b c d e show ?thesis by blast
qed

end
